theory Spec2Isabelle
  imports Main "HOL-Library.Word"
begin

unbundle bit_operations_syntax

section \<open>gosocksv5d: a SOCKS v5 server, embedded from its Go sources\<close>

text \<open>
  The development follows the package's files: the errors and wire constants of the
  connection file, the resolver decorator, the default ruler, the server's configuration
  setters and the per-connection protocol engine with its relay loop. Go's \<open>panic\<close>
  is a value of the result type; the network is a script of what successive calls on a
  transport return.
\<close>

subsection \<open>Errors and results\<close>

type_synonym byte = "8 word"

text \<open>
  Go's \<open>net.IP\<close> is a byte slice (4 or 16 bytes, or nil, the empty list here).
\<close>

type_synonym ip = "byte list"

text \<open>
  The package's own error values, \<open>io.EOF\<close> and \<open>io.ErrUnexpectedEOF\<close>, errors
  that implement \<open>net.Error\<close> (with what \<open>Timeout()\<close> and \<open>Temporary()\<close>
  answer), \<open>net.InvalidAddrError\<close>, any other error, and the run-time panics of Go
  (index or slice bound out of range, nil dereference).
\<close>

datatype error =
    EOF
  | ErrUnexpectedEOF
  | ErrorHandshake
  | ErrorCommand
  | ErrorAddress
  | ErrorNotAllowed
  | ErrorAlreadyListening
  | NetError bool bool
  | InvalidAddrError
  | OtherError string
  | RuntimeError string

text \<open>
  A call returns a value, panics with an error, or is still blocked in a transport call
  when the scripted observation of that transport ends.
\<close>

datatype 'a result = Ret 'a | Panic error | Blocked

text \<open>
  Sequencing of calls that thread a state: the next call runs on a returned value, a
  panic or a blocked call ends the sequence.
\<close>

definition andThen :: "'a result \<times> 's \<Rightarrow> ('a \<Rightarrow> 's \<Rightarrow> 'b result \<times> 's) \<Rightarrow> 'b result \<times> 's" where
  "andThen m f =
     (case m of
        (Ret x, s) \<Rightarrow> f x s
      | (Panic e, s) \<Rightarrow> (Panic e, s)
      | (Blocked, s) \<Rightarrow> (Blocked, s))"

text \<open>
  The implementations of Go's \<open>net.Addr\<close> the package meets: \<open>*net.IPAddr\<close>,
  \<open>*net.IPNet\<close> (address and mask), \<open>*net.TCPAddr\<close> (address and port), and any
  other.
\<close>

datatype addr = IPAddr ip | IPNet ip "byte list" | TCPAddr ip nat | OtherAddr

subsection \<open>Server configuration (the server file)\<close>

text \<open>
  A \<open>DNSResolver\<close> value: the package's default, the shuffle decorator around another
  resolver, or an implementation supplied by the caller.
\<close>

datatype 'r dnsresolver =
    defaultResolver
  | shuffleResolver "'r dnsresolver"
  | userResolver 'r

text \<open>
  \<open>type server struct { running boolChan; instances int; DNSResolver; Logger; Ruler }\<close>.
  The channel carries no configuration and is left out; \<open>instances\<close> is Go's
  \<open>int\<close>, taken unbounded (it counts listeners).
\<close>

record ('r, 'l, 'u) server =
  instances :: int
  DNSResolver :: "'r dnsresolver"
  Logger :: 'l
  Ruler :: 'u

definition NewServer :: "'l \<Rightarrow> 'u \<Rightarrow> ('r, 'l, 'u) server" where
  "NewServer DefaultLogger DefaultRuler =
     \<lparr>instances = 0, DNSResolver = defaultResolver, Logger = DefaultLogger, Ruler = DefaultRuler\<rparr>"

definition panicIfListening :: "('r, 'l, 'u) server \<Rightarrow> unit result" where
  "panicIfListening self =
     (if instances self > 0 then Panic ErrorAlreadyListening else Ret ())"

definition SetDNSResolver ::
  "'r dnsresolver \<Rightarrow> ('r, 'l, 'u) server \<Rightarrow> ('r, 'l, 'u) server \<times> unit result" where
  "SetDNSResolver resolver self =
     (case panicIfListening self of
        Ret _ \<Rightarrow> (self\<lparr>DNSResolver := shuffleResolver resolver\<rparr>, Ret ())
      | Panic e \<Rightarrow> (self, Panic e)
      | Blocked \<Rightarrow> (self, Blocked))"

definition SetLogger ::
  "'l \<Rightarrow> ('r, 'l, 'u) server \<Rightarrow> ('r, 'l, 'u) server \<times> unit result" where
  "SetLogger logger self =
     (case panicIfListening self of
        Ret _ \<Rightarrow> (self\<lparr>Logger := logger\<rparr>, Ret ())
      | Panic e \<Rightarrow> (self, Panic e)
      | Blocked \<Rightarrow> (self, Blocked))"

definition SetRuler ::
  "'u \<Rightarrow> ('r, 'l, 'u) server \<Rightarrow> ('r, 'l, 'u) server \<times> unit result" where
  "SetRuler ruler self =
     (case panicIfListening self of
        Ret _ \<Rightarrow> (self\<lparr>Ruler := ruler\<rparr>, Ret ())
      | Panic e \<Rightarrow> (self, Panic e)
      | Blocked \<Rightarrow> (self, Blocked))"

text \<open>
  \<open>ListenAndServe\<close> keeps its listener in the local variable \<open>l\<close> (nil or not; a
  boolean here). Entering the call listens once: on an error the call returns it and
  the counter is untouched, otherwise the counter is incremented. \<open>None\<close> is the call
  having returned the error.
\<close>

definition ListenAndServe_enter ::
  "bool \<Rightarrow> ('r, 'l, 'u) server \<Rightarrow> ('r, 'l, 'u) server \<times> bool option" where
  "ListenAndServe_enter listen_ok self =
     (if \<not> listen_ok then (self, None)
      else (self\<lparr>instances := instances self + 1\<rparr>, Some True))"

text \<open>
  One turn of the loop's \<open>select\<close> on the \<open>running\<close> channel: a pause closes the
  listener and decrements, a resume listens again and increments (or returns the
  listen error), anything else changes nothing.
\<close>

definition ListenAndServe_signal ::
  "bool \<Rightarrow> bool \<Rightarrow> ('r, 'l, 'u) server \<Rightarrow> bool \<Rightarrow> ('r, 'l, 'u) server \<times> bool option" where
  "ListenAndServe_signal running listen_ok self l =
     (if \<not> running \<and> l then (self\<lparr>instances := instances self - 1\<rparr>, Some False)
      else if running \<and> \<not> l then
        (if listen_ok then (self\<lparr>instances := instances self + 1\<rparr>, Some True)
         else (self, None))
      else (self, Some l))"

text \<open>
  The states a server reaches: the server value with the listener variables of the
  \<open>ListenAndServe\<close> calls in progress. Setters run between the turns of the loops.
\<close>

inductive reachable :: "('r, 'l, 'u) server \<Rightarrow> bool list \<Rightarrow> bool" where
  r_new: "reachable (NewServer lg ru) []"
| r_enter: "reachable s ls \<Longrightarrow> ListenAndServe_enter ok s = (s', Some l)
     \<Longrightarrow> reachable s' (ls @ [l])"
| r_enter_err: "reachable s ls \<Longrightarrow> ListenAndServe_enter ok s = (s', None)
     \<Longrightarrow> reachable s' ls"
| r_signal: "reachable s ls \<Longrightarrow> i < length ls
     \<Longrightarrow> ListenAndServe_signal running ok s (ls ! i) = (s', Some l)
     \<Longrightarrow> reachable s' (ls[i := l])"
| r_signal_err: "reachable s ls \<Longrightarrow> i < length ls
     \<Longrightarrow> ListenAndServe_signal running ok s (ls ! i) = (s', None)
     \<Longrightarrow> reachable s' (take i ls @ drop (Suc i) ls)"
| r_resolver: "reachable s ls \<Longrightarrow> SetDNSResolver r s = (s', res) \<Longrightarrow> reachable s' ls"
| r_logger: "reachable s ls \<Longrightarrow> SetLogger lg s = (s', res) \<Longrightarrow> reachable s' ls"
| r_ruler: "reachable s ls \<Longrightarrow> SetRuler ru s = (s', res) \<Longrightarrow> reachable s' ls"

subsection \<open>The shuffle decorator (the resolver file)\<close>

text \<open>
  The loop of \<open>shuffleResolver.LookupIP\<close>:
  \<^verbatim>\<open>for n := len(addrs); n > 1; n-- {
    if r := rand.Intn(n + 1); r != n { addrs[r], addrs[n] = addrs[n], addrs[r] } }\<close>
  \<open>rnd n\<close> is what \<open>rand.Intn(n + 1)\<close> returns in the round for \<open>n\<close> (each
  \<open>n\<close> has one round). An index outside the slice is Go's run-time panic.
\<close>

fun shuffle_loop :: "(nat \<Rightarrow> nat) \<Rightarrow> nat \<Rightarrow> 'a list \<Rightarrow> 'a list result" where
  "shuffle_loop rnd n addrs =
     (if n > 1 then
        (let r = rnd n in
         if r \<noteq> n then
           (if r < length addrs \<and> n < length addrs
            then shuffle_loop rnd (n - 1) (addrs[r := addrs ! n, n := addrs ! r])
            else Panic (RuntimeError ''index out of range''))
         else shuffle_loop rnd (n - 1) addrs)
      else Ret addrs)"

declare shuffle_loop.simps [simp del]

text \<open>
  \<open>LookupIP\<close> of the decorator around the resolver \<open>resolver\<close>: the wrapped result
  is returned as it is on an error, shuffled in place otherwise.
\<close>

definition shuffleResolver_LookupIP ::
  "(nat \<Rightarrow> nat) \<Rightarrow> (string \<Rightarrow> error + 'a list) \<Rightarrow> string \<Rightarrow> (error + 'a list) result" where
  "shuffleResolver_LookupIP rnd resolver host =
     (case resolver host of
        Inl err \<Rightarrow> Ret (Inl err)
      | Inr addrs \<Rightarrow>
          (case shuffle_loop rnd (length addrs) addrs of
             Ret addrs' \<Rightarrow> Ret (Inr addrs')
           | Panic e \<Rightarrow> Panic e
           | Blocked \<Rightarrow> Blocked))"

subsection \<open>The default ruler (the ruler file)\<close>

datatype RulerResult = DenyConnection | AllowConnection

text \<open>
  The functions of Go's \<open>net\<close> package the ruler calls are parameters of the model:
  \<open>IP.IsGlobalUnicast\<close>, \<open>IP.Equal\<close>, \<open>IPNet.Contains\<close> and the result of
  \<open>net.InterfaceAddrs()\<close>.
\<close>

record netlib =
  IsGlobalUnicast :: "ip \<Rightarrow> bool"
  Equal :: "ip \<Rightarrow> ip \<Rightarrow> bool"
  Contains :: "ip \<Rightarrow> byte list \<Rightarrow> ip \<Rightarrow> bool"
  InterfaceAddrs :: "error + addr list"

fun ruler_loop :: "netlib \<Rightarrow> addr list \<Rightarrow> ip \<Rightarrow> RulerResult" where
  "ruler_loop L [] requested = AllowConnection"
| "ruler_loop L (IPAddr a # addrs) requested =
     (if Equal L a requested then DenyConnection else ruler_loop L addrs requested)"
| "ruler_loop L (IPNet a m # addrs) requested =
     (if Contains L a m requested then DenyConnection else ruler_loop L addrs requested)"
| "ruler_loop L (TCPAddr a p # addrs) requested = ruler_loop L addrs requested"
| "ruler_loop L (OtherAddr # addrs) requested = ruler_loop L addrs requested"

definition defaultRuler_ConnectionAllowed :: "netlib \<Rightarrow> ip \<Rightarrow> ip \<Rightarrow> RulerResult" where
  "defaultRuler_ConnectionAllowed L requestee requested =
     (if \<not> IsGlobalUnicast L requested then DenyConnection
      else (case InterfaceAddrs L of
              Inl err \<Rightarrow> DenyConnection
            | Inr addrs \<Rightarrow> ruler_loop L addrs requested))"

text \<open>
  An interface address covers a destination: equality for an address, containment for
  a network.
\<close>

fun covers :: "netlib \<Rightarrow> addr \<Rightarrow> ip \<Rightarrow> bool" where
  "covers L (IPAddr a) requested = Equal L a requested"
| "covers L (IPNet a m) requested = Contains L a m requested"
| "covers L (TCPAddr a p) requested = False"
| "covers L OtherAddr requested = False"

subsection \<open>Transports\<close>

text \<open>
  A \<open>*net.TCPConn\<close> with the environment's side scripted. \<open>inq\<close> lists what the
  successive \<open>Read\<close> calls meet: the time of the call, the bytes that arrive and the
  error returned with them. \<open>wrq\<close> lists what the successive \<open>Write\<close> calls meet:
  the time of the call, how many bytes the transport takes and the error. \<open>wlog\<close>
  records the argument of every \<open>Write\<close> call, \<open>outb\<close> the bytes the transport
  took. A call made when its script has run out is outside the observation
  (\<open>Blocked\<close>). Times are nanoseconds.
\<close>

type_synonym rd_event = "nat \<times> byte list \<times> error option"
type_synonym wr_event = "nat \<times> nat \<times> error option"

record tcpconn =
  RemoteAddr :: addr
  inq :: "rd_event list"
  wrq :: "wr_event list"
  wlog :: "byte list list"
  outb :: "byte list"
  read_deadline :: nat
  write_deadline :: nat
  read_closed :: bool
  write_closed :: bool
  closed :: bool

definition bufSize :: nat where
  "bufSize = 2 ^ 16"

definition timeoutDiff :: nat where
  "timeoutDiff = 10 * (60 * 1000000000)"

text \<open>\<open>timeout()\<close> is \<open>time.Now().Add(timeoutDiff)\<close>; the argument is \<open>time.Now()\<close>.\<close>

definition timeout :: "nat \<Rightarrow> nat" where
  "timeout now = now + timeoutDiff"

definition SetReadDeadline :: "nat \<Rightarrow> tcpconn \<Rightarrow> tcpconn" where
  "SetReadDeadline t c = c\<lparr>read_deadline := t\<rparr>"

definition SetWriteDeadline :: "nat \<Rightarrow> tcpconn \<Rightarrow> tcpconn" where
  "SetWriteDeadline t c = c\<lparr>write_deadline := t\<rparr>"

definition CloseRead :: "tcpconn \<Rightarrow> tcpconn" where
  "CloseRead c = c\<lparr>read_closed := True\<rparr>"

definition CloseWrite :: "tcpconn \<Rightarrow> tcpconn" where
  "CloseWrite c = c\<lparr>write_closed := True\<rparr>"

definition Close :: "tcpconn \<Rightarrow> tcpconn" where
  "Close c = c\<lparr>closed := True\<rparr>"

text \<open>
  \<open>conn.Read(b)\<close> with \<open>len(b) = k\<close>: the bytes of the next event, as many as fit;
  what does not fit stays for the next call, with the event's error.
\<close>

definition conn_Read :: "nat \<Rightarrow> tcpconn \<Rightarrow> ((byte list \<times> error option) \<times> tcpconn) option" where
  "conn_Read k c =
     (case inq c of
        [] \<Rightarrow> None
      | (now, d, e) # rest \<Rightarrow>
          if length d \<le> k then Some ((d, e), c\<lparr>inq := rest\<rparr>)
          else Some ((take k d, None), c\<lparr>inq := (now, drop k d, e) # rest\<rparr>))"

text \<open>\<open>conn.Write(b)\<close>: the transport takes at most \<open>len(b)\<close> bytes.\<close>

definition conn_Write :: "byte list \<Rightarrow> tcpconn \<Rightarrow> ((nat \<times> error option) \<times> tcpconn) option" where
  "conn_Write b c =
     (case wrq c of
        [] \<Rightarrow> None
      | (now, n, e) # rest \<Rightarrow>
          Some ((min n (length b), e),
                c\<lparr>wrq := rest, wlog := wlog c @ [b], outb := outb c @ take (min n (length b)) b\<rparr>))"

subsection \<open>The connection (the connection file)\<close>

text \<open>
  \<open>sockConn.Read\<close> and \<open>sockConn.Write\<close>: set the deadline from the clock, then
  call the transport. Logging has no effect on the connection and is left out.
\<close>

definition Read :: "nat \<Rightarrow> tcpconn \<Rightarrow> ((byte list \<times> error option) \<times> tcpconn) option" where
  "Read k sock =
     (case inq sock of
        [] \<Rightarrow> None
      | (now, d, e) # rest \<Rightarrow> conn_Read k (SetReadDeadline (timeout now) sock))"

definition Write :: "byte list \<Rightarrow> tcpconn \<Rightarrow> ((nat \<times> error option) \<times> tcpconn) option" where
  "Write b sock =
     (case wrq sock of
        [] \<Rightarrow> None
      | (now, n, e) # rest \<Rightarrow> conn_Write b (SetWriteDeadline (timeout now) sock))"

definition inq_size :: "tcpconn \<Rightarrow> nat" where
  "inq_size c = sum_list (map (\<lambda>(now, d, e). Suc (length d)) (inq c))"

lemma Read_inq_size:
  "Read k sock = Some (r, sock') \<Longrightarrow> 0 < k \<Longrightarrow> inq_size sock' < inq_size sock"
  by (auto simp: Read_def conn_Read_def SetReadDeadline_def inq_size_def
           split: list.splits if_splits)

lemma Write_wrq_length:
  "Write b sock = Some (r, sock') \<Longrightarrow> length (wrq sock') < length (wrq sock)"
  by (auto simp: Write_def conn_Write_def SetWriteDeadline_def split: list.splits)

text \<open>
  Go's \<open>io.ReadFull(sock, rv)\<close> is \<open>io.ReadAtLeast\<close> with \<open>min = len(rv)\<close>:
  \<^verbatim>\<open>for n < min && err == nil { nn, err = r.Read(buf[n:]); n += nn }
  if n >= min { err = nil } else if n > 0 && err == EOF { err = ErrUnexpectedEOF }\<close>
\<close>

function ReadFull_loop ::
  "nat \<Rightarrow> byte list \<Rightarrow> tcpconn \<Rightarrow> (byte list \<times> error option) result \<times> tcpconn" where
  "ReadFull_loop m got sock =
     (if length got < m then
        (case Read (m - length got) sock of
           None \<Rightarrow> (Blocked, sock)
         | Some ((d, err), sock') \<Rightarrow>
             (case err of
                None \<Rightarrow> ReadFull_loop m (got @ d) sock'
              | Some e \<Rightarrow> (Ret (got @ d, Some e), sock')))
      else (Ret (got, None), sock))"
  by pat_completeness auto
termination
  by (relation "measure (\<lambda>(m, got, sock). inq_size sock)") (auto dest: Read_inq_size)

declare ReadFull_loop.simps [simp del]

definition ReadFull :: "nat \<Rightarrow> tcpconn \<Rightarrow> (byte list \<times> error option) result \<times> tcpconn" where
  "ReadFull m sock =
     andThen (ReadFull_loop m [] sock) (\<lambda>(got, err) sock'.
       if length got \<ge> m then (Ret (got, None), sock')
       else if length got > 0 \<and> err = Some EOF then (Ret (got, Some ErrUnexpectedEOF), sock')
       else (Ret (got, err), sock'))"

text \<open>
  \<open>readAll\<close>: the buffer is \<open>count\<close> zero bytes, filled from the front; an error
  other than \<open>io.EOF\<close> panics, \<open>io.EOF\<close> returns the buffer as it is.
\<close>

definition readAll :: "nat \<Rightarrow> tcpconn \<Rightarrow> byte list result \<times> tcpconn" where
  "readAll count sock =
     andThen (ReadFull count sock) (\<lambda>(got, err) sock'.
       (case err of
          None \<Rightarrow> (Ret (got @ replicate (count - length got) 0), sock')
        | Some e \<Rightarrow>
            if e \<noteq> EOF then (Panic e, sock')
            else (Ret (got @ replicate (count - length got) 0), sock')))"

definition writeAll :: "byte list \<Rightarrow> tcpconn \<Rightarrow> unit result \<times> tcpconn" where
  "writeAll bytes sock =
     (case Write bytes sock of
        None \<Rightarrow> (Blocked, sock)
      | Some ((n, err), sock') \<Rightarrow>
          (case err of
             Some e \<Rightarrow> (Panic e, sock')
           | None \<Rightarrow> if n \<noteq> length bytes then (Panic EOF, sock') else (Ret (), sock')))"

abbreviation (input) protoVersion :: byte where "protoVersion \<equiv> 0x5"
abbreviation (input) atypeIPV4 :: byte where "atypeIPV4 \<equiv> 0x1"
abbreviation (input) atypeIPV6 :: byte where "atypeIPV6 \<equiv> 0x4"
abbreviation (input) atypeDomain :: byte where "atypeDomain \<equiv> 0x3"
abbreviation (input) cmdConnect :: byte where "cmdConnect \<equiv> 0x1"
abbreviation (input) repSuccess :: byte where "repSuccess \<equiv> 0x0"
abbreviation (input) repFailure :: byte where "repFailure \<equiv> 0x1"
abbreviation (input) repNotAllowed :: byte where "repNotAllowed \<equiv> 0x2"
abbreviation (input) repHostUnreachable :: byte where "repHostUnreachable \<equiv> 0x4"
abbreviation (input) repNotSupported :: byte where "repNotSupported \<equiv> 0x7"
abbreviation (input) repNotAddressable :: byte where "repNotAddressable \<equiv> 0x8"

definition writeError :: "byte \<Rightarrow> error \<Rightarrow> tcpconn \<Rightarrow> 'a result \<times> tcpconn" where
  "writeError rsp err sock =
     andThen (writeAll [protoVersion, rsp, 0x0, atypeIPV4, 0x0, 0x0, 0x0, 0x0, 0x0, 0x0] sock)
       (\<lambda>u sock'. (Panic err, sock'))"

text \<open>
  The test of the copy loop on an error: \<open>ne, ok := err.(net.Error); ok &&
  (ne.Timeout() || ne.Temporary())\<close>.
\<close>

definition is_transient :: "error \<Rightarrow> bool" where
  "is_transient e = (case e of NetError tmo tmp \<Rightarrow> tmo \<or> tmp | _ \<Rightarrow> False)"

text \<open>
  The inner loop of \<open>copyFrom\<close>. \<open>buf\<close> is the backing array, \<open>wbuf\<close> the slice of
  it from \<open>off\<close> to its end, \<open>nr\<close> Go's \<open>int\<close>:
  \<^verbatim>\<open>for nr > 0 {
    nw, werr := dst.Write(wbuf[0:nr])
    nr -= nw
    wbuf = wbuf[nr:]
    if werr != nil { if transient { continue }; panic(werr) } }\<close>
  A slice bound beyond the slice is Go's run-time panic.
\<close>

function write_loop :: "byte list \<Rightarrow> nat \<Rightarrow> int \<Rightarrow> tcpconn \<Rightarrow> unit result \<times> tcpconn" where
  "write_loop buf off nr dst =
     (if nr > 0 then
        (if nat nr > length buf - off
         then (Panic (RuntimeError ''slice bounds out of range''), dst)
         else (case Write (take (nat nr) (drop off buf)) dst of
                 None \<Rightarrow> (Blocked, dst)
               | Some ((nw, werr), dst') \<Rightarrow>
                   (let nr' = nr - int nw in
                    if nr' < 0 \<or> nat nr' > length buf - off
                    then (Panic (RuntimeError ''slice bounds out of range''), dst')
                    else (case werr of
                            None \<Rightarrow> write_loop buf (off + nat nr') nr' dst'
                          | Some e \<Rightarrow>
                              if is_transient e then write_loop buf (off + nat nr') nr' dst'
                              else (Panic e, dst')))))
      else (Ret (), dst))"
  by pat_completeness auto
termination
  by (relation "measure (\<lambda>(buf, off, nr, dst). length (wrq dst))") (auto dest: Write_wrq_length)

declare write_loop.simps [simp del]

lemma bufSize_pos: "0 < bufSize"
  by (simp add: bufSize_def)

text \<open>
  The outer loop of \<open>copyFrom\<close>: read into \<open>buf\<close> (its length is \<open>bufSize\<close>), write
  what was read, then look at the read error. The loop is left by a panic only
  (\<open>Some\<close> of its value); \<open>None\<close> is a call still blocked.
\<close>

function copy_loop :: "byte list \<Rightarrow> tcpconn \<Rightarrow> tcpconn \<Rightarrow> error option \<times> tcpconn \<times> tcpconn" where
  "copy_loop buf sock dst =
     (case Read bufSize sock of
        None \<Rightarrow> (None, sock, dst)
      | Some ((d, err), sock') \<Rightarrow>
          (case write_loop (d @ drop (length d) buf) 0 (int (length d)) dst of
             (Ret u, dst') \<Rightarrow>
               (case err of
                  None \<Rightarrow> copy_loop (d @ drop (length d) buf) sock' dst'
                | Some e \<Rightarrow>
                    if is_transient e then copy_loop (d @ drop (length d) buf) sock' dst'
                    else (Some e, sock', dst'))
           | (Panic e, dst') \<Rightarrow> (Some e, sock', dst')
           | (Blocked, dst') \<Rightarrow> (None, sock', dst')))"
  by pat_completeness auto
termination
  by (relation "measure (\<lambda>(buf, sock, dst). inq_size sock)")
     (auto dest: Read_inq_size simp: bufSize_pos)

declare copy_loop.simps [simp del]

text \<open>
  \<open>copyFrom\<close>: the loop on a fresh buffer; the deferred function recovers the panic,
  closes the read half of the source and the write half of the destination and
  signals \<open>quit\<close>. The result is the recovered value.
\<close>

definition copyFrom :: "tcpconn \<Rightarrow> tcpconn \<Rightarrow> error result \<times> tcpconn \<times> tcpconn" where
  "copyFrom sock dst =
     (case copy_loop (replicate bufSize 0) sock dst of
        (Some e, sock', dst') \<Rightarrow> (Ret e, CloseRead sock', CloseWrite dst')
      | (None, sock', dst') \<Rightarrow> (Blocked, sock', dst'))"

text \<open>Go's \<open>bytes.IndexByte\<close>: the first index of the byte, or -1.\<close>

fun IndexByte :: "byte list \<Rightarrow> byte \<Rightarrow> int" where
  "IndexByte [] c = - 1"
| "IndexByte (b # s) c =
     (if b = c then 0 else (if IndexByte s c < 0 then - 1 else IndexByte s c + 1))"

definition handshake :: "tcpconn \<Rightarrow> unit result \<times> tcpconn" where
  "handshake sock =
     andThen (readAll 2 sock) (\<lambda>hs s1.
       if hs ! 0 \<noteq> protoVersion then (Panic ErrorHandshake, s1)
       else
         andThen (readAll (unat (hs ! 1)) s1) (\<lambda>methods s2.
           if IndexByte methods 0x0 \<ge> 0 then writeAll [0x5, 0x0] s2
           else andThen (writeAll [0x5, 0xff] s2) (\<lambda>u s3. (Panic ErrorHandshake, s3))))"

text \<open>
  \<open>sockConn.IP\<close>: the address of the peer when the remote address is a
  \<open>*net.IPAddr\<close>, nil otherwise.
\<close>

definition IP :: "tcpconn \<Rightarrow> ip" where
  "IP sock = (case RemoteAddr sock of IPAddr a \<Rightarrow> a | _ \<Rightarrow> [])"

text \<open>Go's \<open>net.IPv4\<close>, \<open>IP.To4\<close> and \<open>IP.To16\<close>.\<close>

definition v4InV6Prefix :: "byte list" where
  "v4InV6Prefix = [0, 0, 0, 0, 0, 0, 0, 0, 0, 0, 0xff, 0xff]"

definition IPv4 :: "byte \<Rightarrow> byte \<Rightarrow> byte \<Rightarrow> byte \<Rightarrow> ip" where
  "IPv4 a b c d = v4InV6Prefix @ [a, b, c, d]"

definition To4 :: "ip \<Rightarrow> ip" where
  "To4 x =
     (if length x = 4 then x
      else if length x = 16 \<and> take 12 x = v4InV6Prefix then drop 12 x
      else [])"

definition To16 :: "ip \<Rightarrow> ip" where
  "To16 x =
     (if length x = 4 then IPv4 (x ! 0) (x ! 1) (x ! 2) (x ! 3)
      else if length x = 16 then x
      else [])"

text \<open>
  What a connection is given and what it calls outside the package: the resolver
  (which may panic), the ruler, \<open>net.DialTCP\<close> (network, local and remote address),
  and what \<open>LocalAddr()\<close> and \<open>RemoteAddr()\<close> do on a nil \<open>*net.TCPConn\<close> (they
  return, or Go panics on the nil pointer). A dial that was attempted is recorded.
\<close>

type_synonym dial = "string \<times> addr \<times> addr"

record env =
  LookupIP :: "byte list \<Rightarrow> (error + ip list) result"
  ConnectionAllowed :: "ip \<Rightarrow> ip \<Rightarrow> RulerResult"
  DialTCP :: "string \<Rightarrow> addr \<Rightarrow> addr \<Rightarrow> error + tcpconn"
  NilConnAddr :: "unit result"

text \<open>
  \<open>newSockConn\<close> formats the log prefix from \<open>conn.LocalAddr()\<close> and
  \<open>conn.RemoteAddr()\<close>, then wraps the connection (\<open>None\<close> is a nil pointer).
\<close>

definition newSockConn :: "env \<Rightarrow> tcpconn option \<Rightarrow> tcpconn option result" where
  "newSockConn E conn =
     (case conn of
        Some c \<Rightarrow> Ret (Some c)
      | None \<Rightarrow>
          (case NilConnAddr E of
             Ret u \<Rightarrow> Ret None
           | Panic e \<Rightarrow> Panic e
           | Blocked \<Rightarrow> Blocked))"

text \<open>
  \<open>connect\<close>, first part: the four bytes of the request, the candidate addresses by
  address type, the port (big-endian).
\<close>

definition connect_request :: "env \<Rightarrow> tcpconn \<Rightarrow> (ip list \<times> nat) result \<times> tcpconn" where
  "connect_request E sock =
     andThen (readAll 4 sock) (\<lambda>command s1.
       if command ! 0 \<noteq> protoVersion then (Panic ErrorHandshake, s1)
       else
         andThen (if command ! 1 = cmdConnect then (Ret (), s1)
                  else writeError repNotSupported ErrorCommand s1) (\<lambda>u s2.
         andThen
           (if command ! 3 = atypeIPV4 then
              andThen (readAll 4 s2) (\<lambda>rawip s3.
                (Ret [IPv4 (rawip ! 0) (rawip ! 1) (rawip ! 2) (rawip ! 3)], s3))
            else if command ! 3 = atypeIPV6 then
              andThen (readAll 16 s2) (\<lambda>raw s3. (Ret [raw], s3))
            else if command ! 3 = atypeDomain then
              andThen (readAll 1 s2) (\<lambda>len s3.
              andThen (readAll (unat (len ! 0)) s3) (\<lambda>domain s4.
                (case LookupIP E domain of
                   Ret (Inr rips) \<Rightarrow> (Ret rips, s4)
                 | Ret (Inl err) \<Rightarrow> writeError repNotAddressable err s4
                 | Panic e \<Rightarrow> (Panic e, s4)
                 | Blocked \<Rightarrow> (Blocked, s4))))
            else writeError repNotAddressable ErrorAddress s2) (\<lambda>rips s5.
         andThen (readAll 2 s5) (\<lambda>p s6.
           (Ret (rips, unat (p ! 0) * 256 + unat (p ! 1)), s6)))))"

text \<open>
  \<open>connect\<close>, the closure over the candidates. \<open>err\<close> is the named result, the
  error of the last dial; the dials attempted are appended to \<open>ds\<close>.
\<close>

fun dial_loop ::
  "env \<Rightarrow> ip \<Rightarrow> nat \<Rightarrow> ip list \<Rightarrow> tcpconn \<Rightarrow> dial list \<Rightarrow> error option
     \<Rightarrow> ((tcpconn option \<times> error option) result \<times> tcpconn) \<times> dial list" where
  "dial_loop E lip port [] sock ds err = ((Ret (None, err), sock), ds)"
| "dial_loop E lip port (rip # rips) sock ds err =
     (case ConnectionAllowed E (IP sock) rip of
        AllowConnection \<Rightarrow>
          (let proto = (if To4 rip = [] then ''tcp6'' else ''tcp'') in
           case DialTCP E proto (TCPAddr lip 0) (TCPAddr rip port) of
             Inr rconn \<Rightarrow>
               ((Ret (Some rconn, None), sock), ds @ [(proto, TCPAddr lip 0, TCPAddr rip port)])
           | Inl e \<Rightarrow>
               dial_loop E lip port rips sock
                 (ds @ [(proto, TCPAddr lip 0, TCPAddr rip port)]) (Some e))
      | DenyConnection \<Rightarrow> (writeError repNotAllowed ErrorNotAllowed sock, ds))"

text \<open>The dial the loop makes for a candidate: network, local and remote address.\<close>

definition attempt :: "ip \<Rightarrow> nat \<Rightarrow> ip \<Rightarrow> dial" where
  "attempt lip port rip =
     (if To4 rip = [] then ''tcp6'' else ''tcp'', TCPAddr lip 0, TCPAddr rip port)"

text \<open>\<open>connect\<close>, last part: the success reply, written in four calls.\<close>

definition connect_reply :: "ip \<Rightarrow> nat \<Rightarrow> tcpconn \<Rightarrow> unit result \<times> tcpconn" where
  "connect_reply lip port sock =
     andThen (writeAll [protoVersion, repSuccess, 0x0] sock) (\<lambda>u s1.
     andThen (if To4 lip \<noteq> []
              then andThen (writeAll [atypeIPV4] s1) (\<lambda>u s2. writeAll (To4 lip) s2)
              else andThen (writeAll [atypeIPV6] s1) (\<lambda>u s2. writeAll (To16 lip) s2)) (\<lambda>u s3.
       writeAll [of_nat (port div 256), of_nat port] s3))"

definition connect :: "env \<Rightarrow> ip \<Rightarrow> tcpconn \<Rightarrow> (tcpconn option result \<times> tcpconn) \<times> dial list" where
  "connect E lip sock =
     (case connect_request E sock of
        (Ret (rips, port), s1) \<Rightarrow>
          (case dial_loop E lip port rips s1 [] None of
             ((Ret (rconn, err), s2), ds) \<Rightarrow>
               (case err of
                  Some e \<Rightarrow>
                    (if e = InvalidAddrError then (writeError repNotAddressable e s2, ds)
                     else (writeError repFailure e s2, ds))
                | None \<Rightarrow>
                    (case newSockConn E rconn of
                       Ret rsock \<Rightarrow>
                         (andThen (connect_reply lip port s2) (\<lambda>u s3. (Ret rsock, s3)), ds)
                     | Panic e \<Rightarrow> ((Panic e, s2), ds)
                     | Blocked \<Rightarrow> ((Blocked, s2), ds)))
           | ((Panic e, s2), ds) \<Rightarrow> ((Panic e, s2), ds)
           | ((Blocked, s2), ds) \<Rightarrow> ((Blocked, s2), ds))
      | (Panic e, s1) \<Rightarrow> ((Panic e, s1), [])
      | (Blocked, s1) \<Rightarrow> ((Blocked, s1), []))"

text \<open>
  \<open>handle\<close>: handshake, then (\<open>handle_request\<close>, the rest of the function) the
  request, the two copying goroutines and the wait for
  both \<open>quit\<close> signals; the deferred functions close both connections. Each
  goroutine touches the read half of its source and the write half of its
  destination only, so the two are run one after the other. A relay over a nil
  upstream connection is not followed (\<open>NilUpstream\<close>); \<open>Waiting\<close> is a call still
  blocked.
\<close>

datatype ending = Done | Failed error | Waiting | NilUpstream

record report =
  client :: tcpconn
  upstream :: "tcpconn option"
  dialled :: "dial list"
  ending :: ending

definition handle_request :: "env \<Rightarrow> ip \<Rightarrow> tcpconn \<Rightarrow> report" where
  "handle_request E lip s1 =
     (case connect E lip s1 of
        ((Panic e, s2), ds) \<Rightarrow>
          \<lparr>client = Close s2, upstream = None, dialled = ds, ending = Failed e\<rparr>
      | ((Blocked, s2), ds) \<Rightarrow>
          \<lparr>client = s2, upstream = None, dialled = ds, ending = Waiting\<rparr>
      | ((Ret None, s2), ds) \<Rightarrow>
          \<lparr>client = s2, upstream = None, dialled = ds, ending = NilUpstream\<rparr>
      | ((Ret (Some rsock), s2), ds) \<Rightarrow>
          (case copyFrom s2 rsock of
             (r1, s3, rs3) \<Rightarrow>
               (case copyFrom rs3 s3 of
                  (r2, rs4, s4) \<Rightarrow>
                    (if r1 \<noteq> Blocked \<and> r2 \<noteq> Blocked
                     then \<lparr>client = Close s4, upstream = Some (Close rs4),
                           dialled = ds, ending = Done\<rparr>
                     else \<lparr>client = s4, upstream = Some rs4,
                           dialled = ds, ending = Waiting\<rparr>))))"

definition handle :: "env \<Rightarrow> ip \<Rightarrow> tcpconn \<Rightarrow> report" where
  "handle E lip sock =
     (case handshake sock of
        (Panic e, s1) \<Rightarrow>
          \<lparr>client = Close s1, upstream = None, dialled = [], ending = Failed e\<rparr>
      | (Blocked, s1) \<Rightarrow>
          \<lparr>client = s1, upstream = None, dialled = [], ending = Waiting\<rparr>
      | (Ret u, s1) \<Rightarrow> handle_request E lip s1)"

text \<open>
  The bytes a script delivers before its first error: what a peer has sent, however it
  is cut into events.
\<close>

fun clean_bytes :: "rd_event list \<Rightarrow> byte list" where
  "clean_bytes [] = []"
| "clean_bytes ((now, d, e) # evs) = (case e of None \<Rightarrow> d @ clean_bytes evs | Some x \<Rightarrow> [])"

subsection \<open>Sample values for evaluation\<close>

definition idle_server :: "(nat, nat, nat) server" where
  "idle_server = NewServer 0 0"

definition busy_server :: "(nat, nat, nat) server" where
  "busy_server = idle_server\<lparr>instances := 1\<rparr>"

text \<open>
  A sample host: the loopback address and one interface on 192.168.1.0/24.
  Containment compares the masked bytes after \<open>To4\<close>, as \<open>IPNet.Contains\<close> does.
\<close>

definition sample_Contains :: "ip \<Rightarrow> byte list \<Rightarrow> ip \<Rightarrow> bool" where
  "sample_Contains a m x =
     (let y = (if To4 x \<noteq> [] then To4 x else x)
      in length y = length a \<and> map2 (AND) a m = map2 (AND) y m)"

definition sample_host :: netlib where
  "sample_host =
     \<lparr>IsGlobalUnicast = (\<lambda>x. length (To4 x) = 4 \<and> hd (To4 x) \<noteq> 127 \<and> hd (To4 x) < 224
                              \<and> To4 x \<noteq> [0, 0, 0, 0]),
      Equal = (\<lambda>a b. To16 a = To16 b),
      Contains = sample_Contains,
      InterfaceAddrs = Inr [IPAddr [127, 0, 0, 1], IPNet [192, 168, 1, 0] [255, 255, 255, 0]]\<rparr>"

text \<open>A connection as accepted, with the scripts of its two directions.\<close>

definition fresh_conn :: "rd_event list \<Rightarrow> wr_event list \<Rightarrow> tcpconn" where
  "fresh_conn rs ws =
     \<lparr>RemoteAddr = TCPAddr [198, 51, 100, 7] 40000, inq = rs, wrq = ws, wlog = [], outb = [],
      read_deadline = 0, write_deadline = 0,
      read_closed = False, write_closed = False, closed = False\<rparr>"

text \<open>
  The upstream connection a successful dial returns: the server sends two bytes, then
  closes.
\<close>

definition sample_upstream :: tcpconn where
  "sample_upstream =
     (fresh_conn [(20, [0x48, 0x49], None), (21, [], Some EOF)] [(15, 100, None)])
       \<lparr>RemoteAddr := TCPAddr [93, 184, 216, 34] 80\<rparr>"

text \<open>
  A sample environment: the name \<open>a.b\<close> resolves to a host on the local network and a
  public one, any other name fails; the default ruler on the sample host; port 80 of
  the public host accepts connections, every other dial is refused.
\<close>

definition sample_env :: env where
  "sample_env =
     \<lparr>LookupIP = (\<lambda>host. if host = [0x61, 0x2e, 0x62]
                          then Ret (Inr [[192, 168, 1, 9], [93, 184, 216, 34]])
                          else Ret (Inl (OtherError ''no such host''))),
      ConnectionAllowed = defaultRuler_ConnectionAllowed sample_host,
      DialTCP = (\<lambda>proto laddr raddr.
                   if raddr = TCPAddr (IPv4 93 184 216 34) 80 \<or> raddr = TCPAddr [93, 184, 216, 34] 80
                   then Inr sample_upstream
                   else Inl (OtherError ''connection refused'')),
      NilConnAddr = Panic (RuntimeError ''nil pointer dereference'')\<rparr>"

subsection \<open>Notions used in the statements and proofs\<close>

text \<open>Nothing was written between two states of a connection.\<close>

definition quiet :: "tcpconn \<Rightarrow> tcpconn \<Rightarrow> bool" where
  "quiet s s' \<longleftrightarrow> wlog s' = wlog s \<and> wrq s' = wrq s"

text \<open>Exactly one failure reply with the status \<open>rsp\<close> was passed to \<open>Write\<close>.\<close>

definition replied :: "byte \<Rightarrow> tcpconn \<Rightarrow> tcpconn \<Rightarrow> bool" where
  "replied rsp s s' \<longleftrightarrow> wlog s' = wlog s @ [[0x5, rsp, 0x0, 0x1, 0x0, 0x0, 0x0, 0x0, 0x0, 0x0]]"

text \<open>
  What a part of \<open>connect\<close> may have written: nothing, or, when it panics, one failure
  reply with a status out of \<open>codes\<close>.
\<close>

definition phase_ok :: "byte set \<Rightarrow> tcpconn \<Rightarrow> 'a result \<Rightarrow> tcpconn \<Rightarrow> bool" where
  "phase_ok codes s r s' \<longleftrightarrow>
     (case r of
        Ret x \<Rightarrow> quiet s s'
      | Blocked \<Rightarrow> quiet s s'
      | Panic e \<Rightarrow> quiet s s' \<or> (\<exists>rsp \<in> codes. replied rsp s s'))"

text \<open>The same, for a computation from every state.\<close>

definition sends :: "byte set \<Rightarrow> (tcpconn \<Rightarrow> 'a result \<times> tcpconn) \<Rightarrow> bool" where
  "sends codes m \<longleftrightarrow> (\<forall>s r s'. m s = (r, s') \<longrightarrow> phase_ok codes s r s')"

text \<open>The write side of a connection is as it was.\<close>

definition kept :: "tcpconn \<Rightarrow> tcpconn \<Rightarrow> bool" where
  "kept s s' \<longleftrightarrow> wlog s' = wlog s \<and> wrq s' = wrq s \<and> outb s' = outb s"

section \<open>Properties\<close>

subsection \<open>Server configuration\<close>

lemma reachable_count:
  "reachable s ls \<Longrightarrow> instances s = int (length (filter (\<lambda>b. b) ls))"
proof (induction rule: reachable.induct)
  case (r_new lg ru)
  then show ?case by (simp add: NewServer_def)
next
  case (r_enter s ls ok s' l)
  then show ?case by (auto simp: ListenAndServe_enter_def split: if_splits)
next
  case (r_enter_err s ls ok s')
  then show ?case by (auto simp: ListenAndServe_enter_def split: if_splits)
next
  case (r_signal s ls i running ok s' l)
  have parts: "ls = take i ls @ (ls ! i) # drop (Suc i) ls"
    using r_signal.hyps(2) by (simp add: id_take_nth_drop)
  have upd: "ls[i := l] = take i ls @ l # drop (Suc i) ls"
    using r_signal.hyps(2) by (simp add: upd_conv_take_nth_drop)
  have c0: "length (filter (\<lambda>b. b) ls) =
      length (filter (\<lambda>b. b) (take i ls)) + (if ls ! i then 1 else 0)
        + length (filter (\<lambda>b. b) (drop (Suc i) ls))"
    by (subst parts) simp
  have c1: "length (filter (\<lambda>b. b) (ls[i := l])) =
      length (filter (\<lambda>b. b) (take i ls)) + (if l then 1 else 0)
        + length (filter (\<lambda>b. b) (drop (Suc i) ls))"
    by (subst upd) simp
  from r_signal.hyps(3) r_signal.IH c0 c1 show ?case
    by (auto simp: ListenAndServe_signal_def split: if_splits)
next
  case (r_signal_err s ls i running ok s')
  have parts: "ls = take i ls @ (ls ! i) # drop (Suc i) ls"
    using r_signal_err.hyps(2) by (simp add: id_take_nth_drop)
  have c0: "length (filter (\<lambda>b. b) ls) =
      length (filter (\<lambda>b. b) (take i ls)) + (if ls ! i then 1 else 0)
        + length (filter (\<lambda>b. b) (drop (Suc i) ls))"
    by (subst parts) simp
  from r_signal_err.hyps(3) r_signal_err.IH c0 show ?case
    by (auto simp: ListenAndServe_signal_def split: if_splits)
next
  case (r_resolver s ls r s' res)
  then show ?case
    by (auto simp: SetDNSResolver_def panicIfListening_def split: if_splits)
next
  case (r_logger s ls lg s' res)
  then show ?case
    by (auto simp: SetLogger_def panicIfListening_def split: if_splits)
next
  case (r_ruler s ls ru s' res)
  then show ?case
    by (auto simp: SetRuler_def panicIfListening_def split: if_splits)
qed

lemma reachable_instances_nonneg: "reachable s ls \<Longrightarrow> 0 \<le> instances s"
  by (simp add: reachable_count)

text \<open>
  C9. In every state a server reaches, each of the three setters panics with
  \<open>ErrorAlreadyListening\<close> and leaves the server as it was when the instance counter is
  not zero, and stores the new value when the counter is zero (the resolver is stored
  inside the shuffle decorator). The guard is \<open>instances > 0\<close>; the counter of a
  reachable state is the number of listeners that are open, so it is never negative.
\<close>

theorem config_mutators_guarded:
  assumes "reachable s ls"
  shows "(instances s \<noteq> 0 \<longrightarrow>
            SetDNSResolver r s = (s, Panic ErrorAlreadyListening) \<and>
            SetLogger lg s = (s, Panic ErrorAlreadyListening) \<and>
            SetRuler ru s = (s, Panic ErrorAlreadyListening)) \<and>
         (instances s = 0 \<longrightarrow>
            SetDNSResolver r s = (s\<lparr>DNSResolver := shuffleResolver r\<rparr>, Ret ()) \<and>
            SetLogger lg s = (s\<lparr>Logger := lg\<rparr>, Ret ()) \<and>
            SetRuler ru s = (s\<lparr>Ruler := ru\<rparr>, Ret ()))"
proof -
  have "0 \<le> instances s" using assms by (rule reachable_instances_nonneg)
  then show ?thesis
    by (auto simp: SetDNSResolver_def SetLogger_def SetRuler_def panicIfListening_def)
qed

lemma reachable_idle: "reachable idle_server []"
  unfolding idle_server_def by (rule r_new)

lemma reachable_busy: "reachable busy_server [True]"
proof -
  have "ListenAndServe_enter True idle_server = (busy_server, Some True)"
    by (simp add: ListenAndServe_enter_def busy_server_def idle_server_def NewServer_def)
  from r_enter [OF reachable_idle this] show ?thesis by simp
qed

theorem config_mutators_guarded_witness:
  "reachable busy_server [True] \<and> instances busy_server \<noteq> 0 \<and>
   SetLogger 7 busy_server = (busy_server, Panic ErrorAlreadyListening) \<and>
   Logger (fst (SetLogger 7 busy_server)) = 0 \<and>
   reachable idle_server [] \<and> instances idle_server = 0 \<and>
   SetDNSResolver (userResolver 3) idle_server =
     (idle_server\<lparr>DNSResolver := shuffleResolver (userResolver 3)\<rparr>, Ret ()) \<and>
   Logger (fst (SetLogger 7 idle_server)) = 7"
  using config_mutators_guarded [OF reachable_busy, of "userResolver 3" 7 5]
        config_mutators_guarded [OF reachable_idle, of "userResolver 3" 7 5]
        reachable_busy reachable_idle
  by (simp add: busy_server_def idle_server_def NewServer_def)

subsection \<open>The default ruler\<close>

lemma ruler_loop_allow:
  "ruler_loop L addrs requested = AllowConnection
     \<longleftrightarrow> (\<forall>a \<in> set addrs. \<not> covers L a requested)"
  by (induction L addrs requested rule: ruler_loop.induct) auto

lemma not_allow_deny: "r \<noteq> AllowConnection \<longleftrightarrow> r = DenyConnection"
  by (cases r) auto

text \<open>
  C8. The default ruler allows a destination exactly when it is a global unicast
  address, the interfaces could be listed, and no listed interface address equals it
  and no listed network contains it; in every other case it denies.
\<close>

theorem default_ruler_allow_iff:
  "(defaultRuler_ConnectionAllowed L requestee requested = AllowConnection \<longleftrightarrow>
      IsGlobalUnicast L requested \<and>
      (\<exists>addrs. InterfaceAddrs L = Inr addrs \<and> (\<forall>a \<in> set addrs. \<not> covers L a requested))) \<and>
   (defaultRuler_ConnectionAllowed L requestee requested = DenyConnection \<longleftrightarrow>
      \<not> (IsGlobalUnicast L requested \<and>
      (\<exists>addrs. InterfaceAddrs L = Inr addrs \<and> (\<forall>a \<in> set addrs. \<not> covers L a requested))))"
proof -
  have a: "defaultRuler_ConnectionAllowed L requestee requested = AllowConnection \<longleftrightarrow>
      IsGlobalUnicast L requested \<and>
      (\<exists>addrs. InterfaceAddrs L = Inr addrs \<and> (\<forall>a \<in> set addrs. \<not> covers L a requested))"
    by (auto simp: defaultRuler_ConnectionAllowed_def ruler_loop_allow split: sum.splits)
  show ?thesis
    using a not_allow_deny [of "defaultRuler_ConnectionAllowed L requestee requested"] by blast
qed

lemma sample_allowed:
  "defaultRuler_ConnectionAllowed sample_host [] [93, 184, 216, 34] = AllowConnection"
  by (simp add: defaultRuler_ConnectionAllowed_def sample_host_def sample_Contains_def
        To4_def To16_def IPv4_def v4InV6Prefix_def)

lemma sample_denied_net:
  "defaultRuler_ConnectionAllowed sample_host [] [192, 168, 1, 77] = DenyConnection"
  by (simp add: defaultRuler_ConnectionAllowed_def sample_host_def sample_Contains_def
        To4_def To16_def IPv4_def v4InV6Prefix_def)

lemma sample_denied_unlisted:
  "defaultRuler_ConnectionAllowed (sample_host\<lparr>InterfaceAddrs := Inl (OtherError ''netlink'')\<rparr>)
     [] [93, 184, 216, 34] = DenyConnection"
  by (simp add: defaultRuler_ConnectionAllowed_def sample_host_def sample_Contains_def
        To4_def To16_def IPv4_def v4InV6Prefix_def)

lemma sample_denied_loopback:
  "defaultRuler_ConnectionAllowed sample_host [] [127, 0, 0, 1] = DenyConnection"
  by (simp add: defaultRuler_ConnectionAllowed_def sample_host_def sample_Contains_def
        To4_def To16_def IPv4_def v4InV6Prefix_def)

theorem default_ruler_allow_iff_witness:
  "defaultRuler_ConnectionAllowed sample_host [] [93, 184, 216, 34] = AllowConnection \<and>
   IsGlobalUnicast sample_host [93, 184, 216, 34] \<and>
   (\<exists>addrs. InterfaceAddrs sample_host = Inr addrs \<and>
      list_all (\<lambda>a. \<not> covers sample_host a [93, 184, 216, 34]) addrs) \<and>
   defaultRuler_ConnectionAllowed sample_host [] [192, 168, 1, 77] = DenyConnection \<and>
   defaultRuler_ConnectionAllowed sample_host [] [127, 0, 0, 1] = DenyConnection \<and>
   defaultRuler_ConnectionAllowed (sample_host\<lparr>InterfaceAddrs := Inl (OtherError ''netlink'')\<rparr>)
     [] [93, 184, 216, 34] = DenyConnection"
proof -
  from default_ruler_allow_iff [of sample_host "[]" "[93, 184, 216, 34]"] sample_allowed
  have "IsGlobalUnicast sample_host [93, 184, 216, 34] \<and>
     (\<exists>addrs. InterfaceAddrs sample_host = Inr addrs \<and>
        (\<forall>a \<in> set addrs. \<not> covers sample_host a [93, 184, 216, 34]))"
    by blast
  then show ?thesis
    using sample_allowed sample_denied_net sample_denied_loopback sample_denied_unlisted
    by (simp only: list_all_iff simp_thms)
qed

subsection \<open>The shuffle decorator\<close>

lemma shuffle_first_round_panics:
  "2 \<le> length addrs \<Longrightarrow> rnd (length addrs) \<noteq> length addrs \<Longrightarrow>
   shuffle_loop rnd (length addrs) addrs = Panic (RuntimeError ''index out of range'')"
  by (subst shuffle_loop.simps) (simp add: Let_def)

lemma shuffle_error_passes:
  "resolver host = Inl err \<Longrightarrow> shuffleResolver_LookupIP rnd resolver host = Ret (Inl err)"
  by (simp add: shuffleResolver_LookupIP_def)

text \<open>
  C5. With two addresses from the wrapped resolver and \<open>rand.Intn(3)\<close> returning 0, the
  first round swaps \<open>addrs[0]\<close> with \<open>addrs[2]\<close>, an index outside the slice: the call
  panics and returns no addresses.
\<close>

theorem shuffle_index_out_of_range:
  "shuffleResolver_LookupIP (\<lambda>n. 0) (\<lambda>h. Inr [[10, 0, 0, 1], [10, 0, 0, 2 :: byte]]) ''example.org''
     = Panic (RuntimeError ''index out of range'')"
proof -
  have "shuffle_loop (\<lambda>n. 0) (length [[10, 0, 0, 1], [10, 0, 0, 2 :: byte]])
          [[10, 0, 0, 1], [10, 0, 0, 2 :: byte]]
        = Panic (RuntimeError ''index out of range'')"
    by (rule shuffle_first_round_panics) simp_all
  then show ?thesis
    by (simp only: shuffleResolver_LookupIP_def sum.case result.case)
qed

subsection \<open>Deadlines\<close>

lemma Read_Cons:
  "inq sock = (now, d, e) # rest \<Longrightarrow>
   Read k sock =
     Some (if length d \<le> k
           then ((d, e), sock\<lparr>read_deadline := timeout now, inq := rest\<rparr>)
           else ((take k d, None),
                 sock\<lparr>read_deadline := timeout now, inq := (now, drop k d, e) # rest\<rparr>))"
  by (simp add: Read_def conn_Read_def SetReadDeadline_def)

lemma Read_Nil: "inq sock = [] \<Longrightarrow> Read k sock = None"
  by (simp add: Read_def)

lemma Write_Cons:
  "wrq sock = (now, n, e) # rest \<Longrightarrow>
   Write b sock =
     Some ((min n (length b), e),
           sock\<lparr>write_deadline := timeout now, wrq := rest, wlog := wlog sock @ [b],
                outb := outb sock @ take (min n (length b)) b\<rparr>)"
  by (simp add: Write_def conn_Write_def SetWriteDeadline_def)

lemma Write_Nil: "wrq sock = [] \<Longrightarrow> Write b sock = None"
  by (simp add: Write_def)

text \<open>
  C6 (as amended). Every \<open>Read\<close> sets the read deadline to the time of the call plus
  ten minutes before it reads, and every \<open>Write\<close> does so for the write deadline,
  whatever the call then returns: the bytes and the error of the event, success or
  failure. \<open>Read\<close> leaves the write deadline alone and \<open>Write\<close> the read deadline.
\<close>

theorem deadline_set_by_every_attempt:
  "(inq sock = (now, d, e) # rest \<longrightarrow>
      (\<exists>sock'. Read k sock
           = Some ((if length d \<le> k then (d, e) else (take k d, None)), sock') \<and>
         read_deadline sock' = now + timeoutDiff \<and>
         write_deadline sock' = write_deadline sock)) \<and>
   (wrq sock = (now', n, e') # rest' \<longrightarrow>
      (\<exists>sock'. Write b sock = Some ((min n (length b), e'), sock') \<and>
         write_deadline sock' = now' + timeoutDiff \<and>
         read_deadline sock' = read_deadline sock))"
  by (auto simp: Read_Cons Write_Cons timeout_def)

theorem deadline_set_by_every_attempt_witness:
  "(\<exists>sock'. Read bufSize (fresh_conn [(1000, [], Some (NetError True True))] [])
        = Some (([], Some (NetError True True)), sock') \<and>
      read_deadline sock' = 1000 + timeoutDiff \<and> write_deadline sock' = 0) \<and>
   (\<exists>sock'. Write [1, 2, 3] (fresh_conn [] [(2000, 0, Some (NetError True True))])
        = Some ((0, Some (NetError True True)), sock') \<and>
      write_deadline sock' = 2000 + timeoutDiff \<and> read_deadline sock' = 0)"
  using deadline_set_by_every_attempt
          [where sock = "fresh_conn [(1000, [], Some (NetError True True))] []"
             and now = 1000 and d = "[]" and e = "Some (NetError True True)" and rest = "[]"
             and k = bufSize and now' = 0 and n = 0 and e' = None and rest' = "[]" and b = "[]"]
        deadline_set_by_every_attempt
          [where sock = "fresh_conn [] [(2000, 0, Some (NetError True True))]"
             and now = 0 and d = "[]" and e = None and rest = "[]" and k = 0
             and now' = 2000 and n = 0 and e' = "Some (NetError True True)" and rest' = "[]"
             and b = "[1, 2, 3]"]
  by (simp add: fresh_conn_def)

text \<open>
  C6, the claim as stated: a \<open>Read\<close> that fails with a timeout, issued at time 1000 on
  a connection whose read deadline is 0, leaves the read deadline at
  1000 + 600000000000. The deadline is not left unchanged by a failed attempt.
\<close>

theorem deadline_changed_by_failed_read:
  "read_deadline (fresh_conn [(1000, [], Some (NetError True True))] []) = 0 \<and>
   map_option (\<lambda>(r, sock'). (r, read_deadline sock'))
     (Read bufSize (fresh_conn [(1000, [], Some (NetError True True))] []))
     = Some (([], Some (NetError True True)), 600000001000)"
  by (simp add: Read_Cons fresh_conn_def timeout_def timeoutDiff_def)


subsection \<open>What reading and writing leave alone\<close>

lemma Read_wlog: "Read k sock = Some (r, sock') \<Longrightarrow> wlog sock' = wlog sock \<and> wrq sock' = wrq sock"
  by (auto simp: Read_def conn_Read_def SetReadDeadline_def split: list.splits if_splits)

lemma ReadFull_loop_wlog:
  "ReadFull_loop m got sock = (r, sock') \<Longrightarrow> wlog sock' = wlog sock \<and> wrq sock' = wrq sock"
proof (induction m got sock rule: ReadFull_loop.induct)
  case (1 m got sock)
  show ?case
  proof (cases "length got < m")
    case False
    with "1.prems" show ?thesis by (simp add: ReadFull_loop.simps)
  next
    case True
    show ?thesis
    proof (cases "Read (m - length got) sock")
      case None
      with True "1.prems" show ?thesis by (simp add: ReadFull_loop.simps)
    next
      case (Some a)
      obtain d err s1 where a: "a = ((d, err), s1)" by (metis surj_pair)
      have w: "wlog s1 = wlog sock \<and> wrq s1 = wrq sock"
        using Some a Read_wlog by blast
      show ?thesis
      proof (cases err)
        case None
        have "ReadFull_loop m (got @ d) s1 = (r, sock')"
          using "1.prems" True Some a None by (simp add: ReadFull_loop.simps)
        from "1.IH" [OF True Some [unfolded a] refl refl None this] w
        show ?thesis by simp
      next
        case (Some e)
        with True \<open>Read (m - length got) sock = Some a\<close> a "1.prems" w show ?thesis
          by (auto simp: ReadFull_loop.simps)
      qed
    qed
  qed
qed

lemma readAll_wlog:
  "readAll n sock = (r, sock') \<Longrightarrow> wlog sock' = wlog sock \<and> wrq sock' = wrq sock"
proof -
  assume a: "readAll n sock = (r, sock')"
  obtain r0 s0 where l: "ReadFull_loop n [] sock = (r0, s0)" by (metis surj_pair)
  from ReadFull_loop_wlog [OF l] have w: "wlog s0 = wlog sock \<and> wrq s0 = wrq sock" .
  from a l have "sock' = s0"
    by (auto simp: readAll_def ReadFull_def andThen_def
             split: result.splits prod.splits option.splits if_splits)
  with w show ?thesis by simp
qed

lemma writeAll_cases:
  "writeAll b sock = (r, sock') \<Longrightarrow>
     (r = Blocked \<and> sock' = sock) \<or> (r \<noteq> Blocked \<and> wlog sock' = wlog sock @ [b])"
  by (auto simp: writeAll_def Write_def conn_Write_def SetWriteDeadline_def
           split: list.splits option.splits if_splits)

lemma writeError_cases:
  "writeError rsp err sock = (r, sock') \<Longrightarrow>
     (r = Blocked \<and> sock' = sock) \<or>
     ((\<exists>e. r = Panic e) \<and>
      wlog sock' = wlog sock @ [[0x5, rsp, 0x0, 0x1, 0x0, 0x0, 0x0, 0x0, 0x0, 0x0]])"
proof -
  assume a: "writeError rsp err sock = (r, sock')"
  obtain r0 s0 where w: "writeAll [0x5, rsp, 0x0, 0x1, 0x0, 0x0, 0x0, 0x0, 0x0, 0x0] sock = (r0, s0)"
    by (metis surj_pair)
  from writeAll_cases [OF w] a w show ?thesis
    by (auto simp: writeError_def andThen_def split: result.splits)
qed

lemma writeError_not_Ret: "writeError rsp err sock \<noteq> (Ret x, sock')"
  by (auto simp: writeError_def andThen_def split: result.splits prod.splits)


subsection \<open>Failure replies\<close>

lemma andThenE:
  assumes "andThen m f = (r, s')"
  obtains (ret) x s where "m = (Ret x, s)" "f x s = (r, s')"
        | (panic) e where "m = (Panic e, s')" "r = Panic e"
        | (blocked) "m = (Blocked, s')" "r = Blocked"
  using assms by (auto simp: andThen_def split: result.splits prod.splits)

lemma quiet_refl: "quiet s s"
  by (simp add: quiet_def)

lemma quiet_trans: "quiet s s1 \<Longrightarrow> quiet s1 s2 \<Longrightarrow> quiet s s2"
  by (simp add: quiet_def)

lemma readAll_quiet: "readAll n sock = (r, sock') \<Longrightarrow> quiet sock sock'"
  by (simp add: quiet_def readAll_wlog)

lemma writeError_outcome:
  "writeError rsp err sock = (r, sock') \<Longrightarrow>
     (r = Blocked \<and> quiet sock sock') \<or> ((\<exists>e. r = Panic e) \<and> replied rsp sock sock')"
  by (drule writeError_cases) (auto simp: quiet_def replied_def)

lemma replied_after_quiet: "quiet s s1 \<Longrightarrow> replied rsp s1 s2 \<Longrightarrow> replied rsp s s2"
  by (simp add: quiet_def replied_def)

text \<open>The outcomes of a phase that may send one failure reply out of a set of codes.\<close>

lemma phase_ok_readAll: "readAll n s = (r, s') \<Longrightarrow> phase_ok codes s r s'"
  by (auto simp: phase_ok_def dest: readAll_quiet split: result.splits)

lemma phase_ok_writeError:
  "writeError rsp err s = (r, s') \<Longrightarrow> rsp \<in> codes \<Longrightarrow> phase_ok codes s r s'"
  by (auto simp: phase_ok_def dest!: writeError_outcome split: result.splits)

lemma phase_ok_pure: "phase_ok codes s (Ret x) s"
  by (simp add: phase_ok_def quiet_refl)

lemma phase_ok_panic: "phase_ok codes s (Panic e) s"
  by (simp add: phase_ok_def quiet_refl)

lemma phase_ok_blocked: "phase_ok codes s Blocked s"
  by (simp add: phase_ok_def quiet_refl)

lemma phase_ok_andThen:
  assumes m: "\<And>r1 s1. m = (r1, s1) \<Longrightarrow> phase_ok codes s r1 s1"
      and f: "\<And>x s1 r2 s2. m = (Ret x, s1) \<Longrightarrow> f x s1 = (r2, s2) \<Longrightarrow> phase_ok codes s1 r2 s2"
      and a: "andThen m f = (r, s')"
  shows "phase_ok codes s r s'"
  using a
proof (cases rule: andThenE)
  case (ret x s1)
  from m [OF ret(1)] have q: "quiet s s1" by (simp add: phase_ok_def)
  from f [OF ret(1) ret(2)] have "phase_ok codes s1 r s'" .
  with q show ?thesis
    by (auto simp: phase_ok_def quiet_def replied_def split: result.splits)
next
  case (panic e)
  from m [OF panic(1)] show ?thesis by (simp add: phase_ok_def panic(2))
next
  case blocked
  from m [OF blocked(1)] show ?thesis by (simp add: phase_ok_def blocked(2))
qed

lemma sendsD: "sends codes m \<Longrightarrow> m s = (r, s') \<Longrightarrow> phase_ok codes s r s'"
  by (simp add: sends_def)

lemma sends_readAll: "sends codes (readAll n)"
  by (simp add: sends_def phase_ok_readAll)

lemma sends_writeError: "rsp \<in> codes \<Longrightarrow> sends codes (writeError rsp err)"
  by (simp add: sends_def phase_ok_writeError)

lemma sends_Ret: "sends codes (\<lambda>s. (Ret x, s))"
  by (simp add: sends_def phase_ok_pure)

lemma sends_Panic: "sends codes (\<lambda>s. (Panic e, s))"
  by (simp add: sends_def phase_ok_panic)

lemma sends_Blocked: "sends codes (\<lambda>s. (Blocked, s))"
  by (simp add: sends_def phase_ok_blocked)

lemma sends_andThen:
  "sends codes m \<Longrightarrow> (\<And>x. sends codes (f x)) \<Longrightarrow> sends codes (\<lambda>s. andThen (m s) f)"
  unfolding sends_def
  by (intro allI impI, erule phase_ok_andThen [rotated 2]) auto

lemma sends_if:
  "(b \<Longrightarrow> sends codes m) \<Longrightarrow> (\<not> b \<Longrightarrow> sends codes m') \<Longrightarrow>
   sends codes (\<lambda>s. if b then m s else m' s)"
  by (cases b) (simp_all add: sends_def)

lemma sends_case_result:
  "(\<And>x. sends codes (a x)) \<Longrightarrow> (\<And>e. sends codes (b e)) \<Longrightarrow> sends codes c \<Longrightarrow>
   sends codes (\<lambda>s. case r of Ret x \<Rightarrow> a x s | Panic e \<Rightarrow> b e s | Blocked \<Rightarrow> c s)"
  by (cases r) (simp_all add: sends_def)

lemma sends_case_sum:
  "(\<And>x. sends codes (a x)) \<Longrightarrow> (\<And>y. sends codes (b y)) \<Longrightarrow>
   sends codes (\<lambda>s. case r of Inl x \<Rightarrow> a x s | Inr y \<Rightarrow> b y s)"
  by (cases r) (simp_all add: sends_def)

lemmas sends_intros =
  sends_readAll sends_writeError sends_Ret sends_Panic sends_Blocked
  sends_andThen sends_if sends_case_result sends_case_sum

lemma connect_request_sends: "sends {0x7, 0x8} (connect_request E)"
proof -
  have "sends {0x7, 0x8} (\<lambda>sock. connect_request E sock)"
    unfolding connect_request_def by (intro sends_intros) simp_all
  then show ?thesis .
qed


lemmas engine_eval =
  handle_def handle_request_def handshake_def connect_def connect_request_def connect_reply_def
  readAll_def ReadFull_def ReadFull_loop.simps writeAll_def writeError_def andThen_def
  Read_def conn_Read_def Write_def conn_Write_def SetReadDeadline_def SetWriteDeadline_def
  timeout_def Close_def IP_def IPv4_def v4InV6Prefix_def To4_def To16_def newSockConn_def
  fresh_conn_def sample_env_def sample_host_def sample_Contains_def
  defaultRuler_ConnectionAllowed_def

lemma loopback_scenario:
  "handle sample_env [0, 0, 0, 0]
     (fresh_conn [(0, [0x05, 0x01, 0x00], None),
                  (5, [0x05, 0x01, 0x00, 0x01, 0x7F, 0x00, 0x00, 0x01, 0x00, 0x50], None)]
                 [(1, 2, None), (6, 10, None)])
   = \<lparr>client = (fresh_conn [] [])
         \<lparr>wlog := [[0x05, 0x00], [0x05, 0x02, 0x00, 0x01, 0, 0, 0, 0, 0, 0]],
          outb := [0x05, 0x00, 0x05, 0x02, 0x00, 0x01, 0, 0, 0, 0, 0, 0],
          read_deadline := 5 + timeoutDiff, write_deadline := 6 + timeoutDiff,
          closed := True\<rparr>,
      upstream = None, dialled = [], ending = Failed ErrorNotAllowed\<rparr>"
  by (simp add: engine_eval)


lemma dial_loop_phase:
  "dial_loop E lip port rips sock ds err = ((r, s'), ds') \<Longrightarrow> phase_ok {0x2} sock r s'"
proof (induction rips arbitrary: ds err)
  case Nil
  then show ?case by (auto simp: phase_ok_def quiet_refl)
next
  case (Cons rip rips)
  show ?case
  proof (cases "ConnectionAllowed E (IP sock) rip")
    case DenyConnection
    with Cons.prems have "writeError 0x2 ErrorNotAllowed sock = (r, s')" by simp
    then show ?thesis by (rule phase_ok_writeError) simp
  next
    case AllowConnection
    show ?thesis
    proof (cases "DialTCP E (if To4 rip = [] then ''tcp6'' else ''tcp'') (TCPAddr lip 0) (TCPAddr rip port)")
      case (Inl e)
      with AllowConnection Cons.prems show ?thesis
        by (auto simp: Let_def dest: Cons.IH)
    next
      case (Inr rconn)
      with AllowConnection Cons.prems show ?thesis
        by (auto simp: Let_def phase_ok_def quiet_refl)
    qed
  qed
qed

lemma writeAll_started:
  "writeAll b s = (r, s') \<Longrightarrow> r \<noteq> Blocked \<Longrightarrow> wlog s' = wlog s @ [b]"
  by (drule writeAll_cases) auto

lemma writeAll_grows:
  "writeAll b s = (r, s') \<Longrightarrow> \<exists>ws. wlog s' = wlog s @ ws"
  by (drule writeAll_cases) auto

lemma connect_reply_cases:
  assumes "connect_reply lip port s = (r, s')"
  shows "(r = Blocked \<and> wlog s' = wlog s) \<or> (\<exists>ws. wlog s' = wlog s @ [0x5, 0x0, 0x0] # ws)"
  using assms unfolding connect_reply_def
proof (cases rule: andThenE)
  case (ret x s1)
  from writeAll_started [OF ret(1)] have w1: "wlog s1 = wlog s @ [[0x5, 0x0, 0x0]]" by simp
  have "\<exists>ws. wlog s' = wlog s1 @ ws"
    using ret(2)
  proof (cases rule: andThenE)
    case (ret y s3)
    have "\<exists>ws. wlog s3 = wlog s1 @ ws"
      using ret(1)
      by (auto split: if_splits elim!: andThenE dest!: writeAll_grows)
    with writeAll_grows [OF ret(2)] show ?thesis by auto
  next
    case (panic e)
    then show ?thesis
      by (auto split: if_splits elim!: andThenE dest!: writeAll_grows)
  next
    case blocked
    then show ?thesis
      by (auto split: if_splits elim!: andThenE dest!: writeAll_grows)
  qed
  with w1 show ?thesis by auto
next
  case (panic e)
  from writeAll_started [OF panic(1)] show ?thesis by simp
next
  case blocked
  from writeAll_cases [OF blocked(1)] blocked(2) show ?thesis by auto
qed

text \<open>
  C10. Whenever \<open>connect\<close> ends in a panic, what it has passed to \<open>Write\<close> is nothing,
  or one reply of the fixed ten bytes: version 5, a status among 1, 2, 7 and 8, reserved
  0, address type 1, address 0.0.0.0, port 0; or the panic came while the success reply
  (which starts 5, 0, 0) was being written. This holds for every request, whatever its
  address type.
\<close>

theorem failure_reply_fixed_form:
  assumes "connect E lip sock = ((Panic e, sock'), ds)"
  shows "wlog sock' = wlog sock \<or>
         (\<exists>rsp \<in> {0x1, 0x2, 0x7, 0x8}.
            wlog sock' = wlog sock @ [[0x5, rsp, 0x0, 0x1, 0x0, 0x0, 0x0, 0x0, 0x0, 0x0]]) \<or>
         (\<exists>ws. wlog sock' = wlog sock @ [0x5, 0x0, 0x0] # ws)"
proof -
  obtain r1 s1 where rq: "connect_request E sock = (r1, s1)" by (metis surj_pair)
  from sendsD [OF connect_request_sends rq] have p1: "phase_ok {0x7, 0x8} sock r1 s1" .
  show ?thesis
  proof (cases r1)
    case (Panic e1)
    with rq assms have "sock' = s1" by (simp add: connect_def)
    with p1 Panic show ?thesis by (auto simp: phase_ok_def quiet_def replied_def)
  next
    case Blocked
    with rq assms show ?thesis by (simp add: connect_def)
  next
    case (Ret x)
    obtain rips port where x: "x = (rips, port)" by (metis surj_pair)
    from p1 Ret have q1: "wlog s1 = wlog sock" by (simp add: phase_ok_def quiet_def)
    obtain r2 s2 ds2 where dl: "dial_loop E lip port rips s1 [] None = ((r2, s2), ds2)"
      by (metis surj_pair)
    from dial_loop_phase [OF dl] have p2: "phase_ok {0x2} s1 r2 s2" .
    show ?thesis
    proof (cases r2)
      case (Panic e2)
      with rq Ret x dl assms have "sock' = s2" by (simp add: connect_def)
      with p2 Panic q1 show ?thesis by (auto simp: phase_ok_def quiet_def replied_def)
    next
      case Blocked
      with rq Ret x dl assms show ?thesis by (simp add: connect_def)
    next
      case (Ret y)
      obtain rconn err where y: "y = (rconn, err)" by (metis surj_pair)
      from p2 Ret have q2: "wlog s2 = wlog s1" by (simp add: phase_ok_def quiet_def)
      show ?thesis
      proof (cases err)
        case (Some e3)
        obtain rsp where rsp: "rsp \<in> {0x1, 0x8 :: byte}"
          and we: "writeError rsp e3 s2 = (Panic e :: tcpconn option result, sock')"
          using rq \<open>r1 = Ret x\<close> x dl Ret y Some assms
          by (auto simp: connect_def split: if_splits)
        from writeError_outcome [OF we] have "replied rsp s2 sock'" by auto
        with rsp q1 q2 show ?thesis by (auto simp: replied_def)
      next
        case None
        show ?thesis
        proof (cases "newSockConn E rconn")
          case (Panic e4)
          with rq \<open>r1 = Ret x\<close> x dl Ret y None assms have "sock' = s2"
            by (simp add: connect_def)
          with q1 q2 show ?thesis by simp
        next
          case Blocked
          with rq \<open>r1 = Ret x\<close> x dl Ret y None assms show ?thesis
            by (simp add: connect_def)
        next
          case (Ret rsock)
          obtain r5 s5 where cr: "connect_reply lip port s2 = (r5, s5)" by (metis surj_pair)
          from rq \<open>r1 = Ret x\<close> x dl \<open>r2 = Ret y\<close> y None Ret cr assms
          have "r5 = Panic e \<and> sock' = s5"
            by (auto simp: connect_def andThen_def split: result.splits)
          with connect_reply_cases [OF cr] q1 q2 show ?thesis by auto
        qed
      qed
    qed
  qed
qed


subsection \<open>Reading what the client has sent\<close>

lemma kept_refl: "kept s s"
  by (simp add: kept_def)

lemma kept_trans: "kept s s1 \<Longrightarrow> kept s1 s2 \<Longrightarrow> kept s s2"
  by (simp add: kept_def)

lemma ReadFull_loop_clean:
  "inq sock = evs \<Longrightarrow> length got + k = m \<Longrightarrow> k \<le> length (clean_bytes evs) \<Longrightarrow>
   \<exists>sock'. ReadFull_loop m got sock = (Ret (got @ take k (clean_bytes evs), None), sock') \<and>
           clean_bytes (inq sock') = drop k (clean_bytes evs) \<and> kept sock sock'"
proof (induction evs arbitrary: sock got k)
  case Nil
  then show ?case by (simp add: ReadFull_loop.simps kept_refl)
next
  case (Cons ev rest)
  obtain now d e where ev: "ev = (now, d, e)" by (metis surj_pair)
  show ?case
  proof (cases "k = 0")
    case True
    with Cons.prems show ?thesis by (simp add: ReadFull_loop.simps kept_refl)
  next
    case False
    with Cons.prems have lt: "length got < m" and km: "m - length got = k" by auto
    from False Cons.prems ev have e: "e = None" by (cases e) auto
    have inq: "inq sock = (now, d, None) # rest" using Cons.prems ev e by simp
    show ?thesis
    proof (cases "length d \<le> k")
      case True
      let ?s1 = "sock\<lparr>read_deadline := timeout now, inq := rest\<rparr>"
      have rd: "Read k sock = Some ((d, None), ?s1)"
        using Read_Cons [OF inq, of k] True by simp
      have step: "ReadFull_loop m got sock = ReadFull_loop m (got @ d) ?s1"
        by (subst ReadFull_loop.simps) (simp add: lt km rd)
      have "\<exists>sock'. ReadFull_loop m (got @ d) ?s1
              = (Ret ((got @ d) @ take (k - length d) (clean_bytes rest), None), sock') \<and>
            clean_bytes (inq sock') = drop (k - length d) (clean_bytes rest) \<and> kept ?s1 sock'"
        using Cons.prems True ev e by (intro Cons.IH) auto
      then obtain sock' where
        r: "ReadFull_loop m (got @ d) ?s1
              = (Ret ((got @ d) @ take (k - length d) (clean_bytes rest), None), sock')"
        and c: "clean_bytes (inq sock') = drop (k - length d) (clean_bytes rest)"
        and kp: "kept ?s1 sock'" by blast
      from kp have "kept sock sock'" by (simp add: kept_def)
      with step r c True ev e show ?thesis by simp
    next
      case False
      let ?s1 = "sock\<lparr>read_deadline := timeout now, inq := (now, drop k d, None) # rest\<rparr>"
      have rd: "Read k sock = Some ((take k d, None), ?s1)"
        using Read_Cons [OF inq, of k] False by simp
      have len: "length (got @ take k d) = m" using False Cons.prems by simp
      have "ReadFull_loop m got sock = ReadFull_loop m (got @ take k d) ?s1"
        by (subst ReadFull_loop.simps) (simp add: lt km rd)
      also have "\<dots> = (Ret (got @ take k d, None), ?s1)"
        by (subst ReadFull_loop.simps) (simp add: len del: length_append)
      finally have "ReadFull_loop m got sock = (Ret (got @ take k d, None), ?s1)" .
      moreover have "kept sock ?s1" by (simp add: kept_def)
      ultimately show ?thesis using False ev e by simp
    qed
  qed
qed

lemma readAll_clean:
  assumes "count \<le> length (clean_bytes (inq sock))"
  shows "\<exists>sock'. readAll count sock = (Ret (take count (clean_bytes (inq sock))), sock') \<and>
           clean_bytes (inq sock') = drop count (clean_bytes (inq sock)) \<and> kept sock sock'"
proof -
  from ReadFull_loop_clean [OF refl, of "[]" count count sock] assms
  obtain sock' where
    r: "ReadFull_loop count [] sock = (Ret (take count (clean_bytes (inq sock)), None), sock')"
    and c: "clean_bytes (inq sock') = drop count (clean_bytes (inq sock))"
    and k: "kept sock sock'" by auto
  from r assms have "readAll count sock = (Ret (take count (clean_bytes (inq sock))), sock')"
    by (simp add: readAll_def ReadFull_def andThen_def)
  with c k show ?thesis by blast
qed

subsection \<open>The handshake\<close>

lemma IndexByte_nonneg: "IndexByte s c \<ge> 0 \<longleftrightarrow> c \<in> set s"
  by (induction s) auto

lemma writeAll_taken:
  "wrq s = (now, k, None) # ws \<Longrightarrow> length b \<le> k \<Longrightarrow>
   writeAll b s = (Ret (), s\<lparr>write_deadline := timeout now, wrq := ws, wlog := wlog s @ [b],
                              outb := outb s @ b\<rparr>)"
  by (simp add: writeAll_def Write_Cons min_def)


lemma handshake_run:
  assumes bytes: "take (2 + length methods) (clean_bytes (inq sock)) = 0x5 # n # methods"
      and len: "length methods = unat n"
      and wr: "wrq sock = (now, k, None) # ws"
      and k: "2 \<le> k"
  shows "\<exists>s2. kept sock s2 \<and>
           clean_bytes (inq s2) = drop (2 + length methods) (clean_bytes (inq sock)) \<and>
           handshake sock =
             (if 0x0 \<in> set methods then writeAll [0x5, 0x0] s2
              else andThen (writeAll [0x5, 0xff] s2) (\<lambda>u s3. (Panic ErrorHandshake, s3)))"
proof -
  let ?cb = "clean_bytes (inq sock)"
  have l: "2 + length methods \<le> length ?cb"
  proof (rule ccontr)
    assume "\<not> 2 + length methods \<le> length ?cb"
    then have "length (take (2 + length methods) ?cb) < 2 + length methods" by simp
    with bytes show False by simp
  qed
  then have l2: "2 \<le> length ?cb" by simp
  from readAll_clean [OF l2] obtain s1 where
    r1: "readAll 2 sock = (Ret (take 2 ?cb), s1)"
    and c1: "clean_bytes (inq s1) = drop 2 ?cb"
    and k1: "kept sock s1" by blast
  have t2: "take 2 ?cb = [0x5, n]"
  proof -
    have "take 2 ?cb = take 2 (take (2 + length methods) ?cb)"
      by (metis take_take min.absorb1 le_add1)
    also have "\<dots> = take 2 (0x5 # n # methods)" by (simp only: bytes)
    also have "\<dots> = [0x5, n]" by simp
    finally show ?thesis .
  qed
  have l3: "unat n \<le> length (clean_bytes (inq s1))" using l c1 len by simp
  from readAll_clean [OF l3] obtain s2 where
    r2: "readAll (unat n) s1 = (Ret (take (unat n) (clean_bytes (inq s1))), s2)"
    and c2: "clean_bytes (inq s2) = drop (unat n) (clean_bytes (inq s1))"
    and k2: "kept s1 s2" by blast
  have m: "take (unat n) (clean_bytes (inq s1)) = methods"
  proof -
    have "take (unat n) (drop 2 ?cb) = drop 2 (take (2 + unat n) ?cb)"
      by (simp add: drop_take)
    also have "\<dots> = methods" using bytes len by simp
    finally show ?thesis using c1 by simp
  qed
  have "kept sock s2" using k1 k2 by (rule kept_trans)
  moreover have "clean_bytes (inq s2) = drop (2 + length methods) ?cb"
    using c2 c1 len by (simp add: add.commute)
  moreover have "handshake sock =
             (if 0x0 \<in> set methods then writeAll [0x5, 0x0] s2
              else andThen (writeAll [0x5, 0xff] s2) (\<lambda>u s3. (Panic ErrorHandshake, s3)))"
    using r1 r2 t2 m by (simp add: handshake_def andThen_def IndexByte_nonneg)
  ultimately show ?thesis by blast
qed

text \<open>
  C7. The client has sent version 5, a count and that many method bytes (in events cut
  anywhere), and the transport takes the two bytes of the reply. If 0 is not among the
  methods, the handshake writes 5, 0xFF and panics with \<open>ErrorHandshake\<close>, and
  \<open>handle\<close> closes the connection at once: nothing after the methods is read, nothing
  is dialled. If 0 is among them, the handshake writes 5, 0 and returns, and \<open>handle\<close>
  goes on with the request on the rest of the input.
\<close>

theorem handshake_method_selection:
  assumes "take (2 + length methods) (clean_bytes (inq sock)) = 0x5 # n # methods"
      and "length methods = unat n"
      and "wrq sock = (now, k, None) # ws"
      and "2 \<le> k"
  shows "(0x0 \<notin> set methods \<longrightarrow>
            fst (handshake sock) = Panic ErrorHandshake \<and>
            wlog (snd (handshake sock)) = wlog sock @ [[0x5, 0xff]] \<and>
            outb (snd (handshake sock)) = outb sock @ [0x5, 0xff] \<and>
            clean_bytes (inq (snd (handshake sock)))
              = drop (2 + length methods) (clean_bytes (inq sock)) \<and>
            handle E lip sock =
              \<lparr>client = Close (snd (handshake sock)), upstream = None, dialled = [],
               ending = Failed ErrorHandshake\<rparr>) \<and>
         (0x0 \<in> set methods \<longrightarrow>
            fst (handshake sock) = Ret () \<and>
            wlog (snd (handshake sock)) = wlog sock @ [[0x5, 0x0]] \<and>
            outb (snd (handshake sock)) = outb sock @ [0x5, 0x0] \<and>
            clean_bytes (inq (snd (handshake sock)))
              = drop (2 + length methods) (clean_bytes (inq sock)) \<and>
            handle E lip sock = handle_request E lip (snd (handshake sock)))"
proof -
  from handshake_run [OF assms] obtain s2 where
    kp: "kept sock s2"
    and cb: "clean_bytes (inq s2) = drop (2 + length methods) (clean_bytes (inq sock))"
    and hs: "handshake sock =
             (if 0x0 \<in> set methods then writeAll [0x5, 0x0] s2
              else andThen (writeAll [0x5, 0xff] s2) (\<lambda>u s3. (Panic ErrorHandshake, s3)))"
    by blast
  from kp assms(3) have w2: "wrq s2 = (now, k, None) # ws" by (simp add: kept_def)
  have wa: "\<And>b. length b \<le> k \<Longrightarrow>
     writeAll b s2 = (Ret (), s2\<lparr>write_deadline := timeout now, wrq := ws,
                                  wlog := wlog s2 @ [b], outb := outb s2 @ b\<rparr>)"
    using w2 by (rule writeAll_taken)
  show ?thesis
  proof (cases "0x0 \<in> set methods")
    case True
    with hs wa [of "[0x5, 0x0]"] assms(4)
    have h: "handshake sock = (Ret (), s2\<lparr>write_deadline := timeout now, wrq := ws,
                                  wlog := wlog s2 @ [[0x5, 0x0]], outb := outb s2 @ [0x5, 0x0]\<rparr>)"
      by simp
    with True kp cb show ?thesis by (simp add: kept_def handle_def)
  next
    case False
    with hs wa [of "[0x5, 0xff]"] assms(4)
    have h: "handshake sock = (Panic ErrorHandshake, s2\<lparr>write_deadline := timeout now, wrq := ws,
                                  wlog := wlog s2 @ [[0x5, 0xff]], outb := outb s2 @ [0x5, 0xff]\<rparr>)"
      by (simp add: andThen_def)
    with False kp cb show ?thesis by (simp add: kept_def handle_def)
  qed
qed


subsection \<open>The dial phase\<close>





subsection \<open>Resolution failure\<close>




text \<open>
  Outside that contract, a resolver that returns no address and no error: the loop
  over the candidates does not run and no error is left to report. \<open>newSockConn\<close>
  then meets a nil connection: where that panics nothing is written, where it returns
  the success reply is written with no upstream connection. No dial is made.
\<close>

lemma empty_resolution_outside_contract:
  "connect (sample_env\<lparr>LookupIP := \<lambda>host. Ret (Inr [])\<rparr>) [0, 0, 0, 0]
     (fresh_conn [(0, [0x05, 0x01, 0x00, 0x03, 0x03, 0x61, 0x2e, 0x62, 0x00, 0x50], None)]
                 [(1, 10, None), (2, 10, None), (3, 10, None), (4, 10, None)])
   = ((Panic (RuntimeError ''nil pointer dereference''),
       (fresh_conn [] [(1, 10, None), (2, 10, None), (3, 10, None), (4, 10, None)])
         \<lparr>read_deadline := 0 + timeoutDiff\<rparr>),
      []) \<and>
   connect (sample_env\<lparr>LookupIP := \<lambda>host. Ret (Inr []), NilConnAddr := Ret ()\<rparr>) [0, 0, 0, 0]
     (fresh_conn [(0, [0x05, 0x01, 0x00, 0x03, 0x03, 0x61, 0x2e, 0x62, 0x00, 0x50], None)]
                 [(1, 10, None), (2, 10, None), (3, 10, None), (4, 10, None)])
   = ((Ret None,
       (fresh_conn [] [])
         \<lparr>wlog := [[0x05, 0x00, 0x00], [0x01], [0, 0, 0, 0], [0x00, 0x50]],
          outb := [0x05, 0x00, 0x00, 0x01, 0, 0, 0, 0, 0x00, 0x50],
          read_deadline := 0 + timeoutDiff, write_deadline := 4 + timeoutDiff\<rparr>),
      [])"
  by (simp add: engine_eval)


subsection \<open>The relay\<close>

lemmas relay_eval =
  copyFrom_def copy_loop.simps write_loop.simps is_transient_def bufSize_def
  Read_def conn_Read_def Write_def conn_Write_def SetReadDeadline_def SetWriteDeadline_def
  timeout_def CloseRead_def CloseWrite_def Close_def fresh_conn_def

text \<open>
  C3. The source delivers 1, 2, 3 and closes; the first \<open>Write\<close> takes one byte. The
  loop then sets \<open>nr\<close> to 2 and moves \<open>wbuf\<close> forward by 2, not by 1, and the second
  \<open>Write\<close> sends \<open>buf[2:4]\<close>: the destination receives 1, 3, 0.
\<close>

theorem partial_write_loses_bytes:
  "copyFrom (fresh_conn [(0, [1, 2, 3], None), (5, [], Some EOF)] [])
            (fresh_conn [] [(1, 1, None), (2, 10, None)])
   = (Ret EOF,
      (fresh_conn [] [])\<lparr>read_deadline := 5 + timeoutDiff, read_closed := True\<rparr>,
      (fresh_conn [] [])\<lparr>wlog := [[1, 2, 3], [3, 0]], outb := [1, 3, 0],
                         write_deadline := 2 + timeoutDiff, write_closed := True\<rparr>)"
  by (simp add: relay_eval)

text \<open>
  The same loss when the partial write is reported together with a timeout, as a
  \<open>*net.TCPConn\<close> reports it.
\<close>

lemma partial_write_with_timeout_loses_bytes:
  "copyFrom (fresh_conn [(0, [1, 2, 3], None), (5, [], Some EOF)] [])
            (fresh_conn [] [(1, 1, Some (NetError True True)), (2, 10, None)])
   = (Ret EOF,
      (fresh_conn [] [])\<lparr>read_deadline := 5 + timeoutDiff, read_closed := True\<rparr>,
      (fresh_conn [] [])\<lparr>wlog := [[1, 2, 3], [3, 0]], outb := [1, 3, 0],
                         write_deadline := 2 + timeoutDiff, write_closed := True\<rparr>)"
  by (simp add: relay_eval)

text \<open>
  C2, the claim as stated. First run: the first \<open>Read\<close>, issued at time 0, fails
  with a timeout; the loop reads again at time 700000000000, relays the three bytes
  that arrive and ends only at the end of the stream. Second run: the first \<open>Write\<close>
  fails with a timeout; the loop writes again (from the wrong place of the buffer, the
  slip shown under C3), later relays the byte 4 and ends only at the end of the stream.
  A deadline violation is not fatal to the direction.
\<close>

theorem relay_continues_after_timeout:
  "copyFrom (fresh_conn [(0, [], Some (NetError True True)),
                         (700000000000, [1, 2, 3], None),
                         (700000000001, [], Some EOF)] [])
            (fresh_conn [] [(700000000000, 3, None)])
   = (Ret EOF,
      (fresh_conn [] [])\<lparr>read_deadline := 700000000001 + timeoutDiff, read_closed := True\<rparr>,
      (fresh_conn [] [])\<lparr>wlog := [[1, 2, 3]], outb := [1, 2, 3],
                         write_deadline := 700000000000 + timeoutDiff, write_closed := True\<rparr>) \<and>
   copyFrom (fresh_conn [(0, [1, 2, 3], None), (700000000002, [4], None),
                         (700000000004, [], Some EOF)] [])
            (fresh_conn [] [(1, 0, Some (NetError True True)), (700000000001, 10, None),
                            (700000000003, 10, None)])
   = (Ret EOF,
      (fresh_conn [] [])\<lparr>read_deadline := 700000000004 + timeoutDiff, read_closed := True\<rparr>,
      (fresh_conn [] [])\<lparr>wlog := [[1, 2, 3], [0, 0, 0], [4]], outb := [0, 0, 0, 4],
                         write_deadline := 700000000003 + timeoutDiff, write_closed := True\<rparr>)"
  by (simp add: relay_eval numeral_3_eq_3)

lemma write_loop_not_transient:
  "write_loop buf off nr dst = (Panic e, dst') \<Longrightarrow> \<not> is_transient e"
proof (induction buf off nr dst rule: write_loop.induct)
  case (1 buf off nr dst)
  show ?case
  proof (cases "nr > 0 \<and> \<not> nat nr > length buf - off")
    case False
    with "1.prems" show ?thesis
      by (auto simp: write_loop.simps is_transient_def split: if_splits)
  next
    case True
    then have pos: "nr > 0" and fit: "\<not> nat nr > length buf - off" by auto
    show ?thesis
    proof (cases "Write (take (nat nr) (drop off buf)) dst")
      case None
      with pos fit "1.prems" show ?thesis by (simp add: write_loop.simps)
    next
      case (Some a)
      obtain nw werr d1 where a: "a = ((nw, werr), d1)" by (metis surj_pair)
      show ?thesis
      proof (cases "nr - int nw < 0 \<or> nat (nr - int nw) > length buf - off")
        case True
        with pos fit Some a "1.prems" show ?thesis
          by (auto simp: write_loop.simps is_transient_def Let_def)
      next
        case False
        show ?thesis
        proof (cases werr)
          case None
          have "write_loop buf (off + nat (nr - int nw)) (nr - int nw) d1 = (Panic e, dst')"
            using "1.prems" pos fit Some a False None
            by (subst (asm) write_loop.simps) (simp add: Let_def)
          from "1.IH"(1) [OF pos fit Some [unfolded a] refl refl refl False None this]
          show ?thesis .
        next
          case (Some e1)
          show ?thesis
          proof (cases "is_transient e1")
            case True
            have "write_loop buf (off + nat (nr - int nw)) (nr - int nw) d1 = (Panic e, dst')"
              using "1.prems" pos fit \<open>Write (take (nat nr) (drop off buf)) dst = Some a\<close> a False Some True
              by (subst (asm) write_loop.simps) (simp add: Let_def)
            from "1.IH"(2) [OF pos fit \<open>Write (take (nat nr) (drop off buf)) dst = Some a\<close> [unfolded a]
                               refl refl refl False Some True this]
            show ?thesis .
          next
            case False
            with "1.prems" pos fit \<open>Write (take (nat nr) (drop off buf)) dst = Some a\<close> a
                 \<open>\<not> (nr - int nw < 0 \<or> nat (nr - int nw) > length buf - off)\<close> Some
            show ?thesis
              by (subst (asm) write_loop.simps) (simp add: Let_def)
          qed
        qed
      qed
    qed
  qed
qed


lemma copy_loop_not_transient:
  "copy_loop buf sock dst = (Some e, sock', dst') \<Longrightarrow> \<not> is_transient e"
proof (induction buf sock dst rule: copy_loop.induct)
  case (1 buf sock dst)
  show ?case
  proof (cases "Read bufSize sock")
    case None
    with "1.prems" show ?thesis by (simp add: copy_loop.simps)
  next
    case (Some a)
    obtain d err s1 where a: "a = ((d, err), s1)" by (metis surj_pair)
    obtain r d1 where w: "write_loop (d @ drop (length d) buf) 0 (int (length d)) dst = (r, d1)"
      by (metis surj_pair)
    show ?thesis
    proof (cases r)
      case (Panic e1)
      with "1.prems" Some a w have "e = e1"
        by (subst (asm) copy_loop.simps) simp
      with Panic w write_loop_not_transient show ?thesis by blast
    next
      case Blocked
      with "1.prems" Some a w show ?thesis
        by (subst (asm) copy_loop.simps) simp
    next
      case (Ret u)
      show ?thesis
      proof (cases err)
        case None
        have "copy_loop (d @ drop (length d) buf) s1 d1 = (Some e, sock', dst')"
          using "1.prems" Some a w Ret None by (subst (asm) copy_loop.simps) simp
        from "1.IH"(1) [OF Some [unfolded a] refl refl w [unfolded Ret, symmetric] refl None this]
        show ?thesis .
      next
        case (Some e1)
        show ?thesis
        proof (cases "is_transient e1")
          case True
          have "copy_loop (d @ drop (length d) buf) s1 d1 = (Some e, sock', dst')"
            using "1.prems" \<open>Read bufSize sock = Some a\<close> a w Ret Some True
            by (subst (asm) copy_loop.simps) simp
          from "1.IH"(2) [OF \<open>Read bufSize sock = Some a\<close> [unfolded a] refl refl
                             w [unfolded Ret, symmetric] refl Some True this]
          show ?thesis .
        next
          case False
          with "1.prems" \<open>Read bufSize sock = Some a\<close> a w Ret Some show ?thesis
            by (subst (asm) copy_loop.simps) auto
        qed
      qed
    qed
  qed
qed

lemma write_loop_nothing: "write_loop buf off 0 dst = (Ret (), dst)"
  by (simp add: write_loop.simps)

lemma copy_loop_retry:
  assumes "is_transient e" and "inq sock = (now, [], Some e) # rest"
  shows "copy_loop buf sock dst
           = copy_loop buf (sock\<lparr>read_deadline := timeout now, inq := rest\<rparr>) dst"
proof -
  have "Read bufSize sock = Some (([], Some e), sock\<lparr>read_deadline := timeout now, inq := rest\<rparr>)"
    using Read_Cons [OF assms(2), of bufSize] by simp
  then show ?thesis
    using assms(1) by (subst copy_loop.simps) (simp add: write_loop_nothing)
qed

text \<open>
  C2 (as amended). A read that ends with a timeout or a temporary error and no data is
  retried: the loop goes on with the next read, under a new deadline. No timeout or
  temporary error, of a read or of a write, is the error a direction ends with: the
  value recovered when \<open>copyFrom\<close> returns is never such an error, so a direction ends
  only with another error (the end of the stream included) or a run-time panic. When
  \<open>copyFrom\<close> returns, the read half of its source and the write half of its
  destination are closed. When both directions have returned, \<open>handle\<close> closes both
  connections.
\<close>

theorem transient_errors_are_retried:
  "(is_transient e \<and> inq sock = (now, [], Some e) # rest \<longrightarrow>
      copyFrom sock dst = copyFrom (sock\<lparr>read_deadline := timeout now, inq := rest\<rparr>) dst) \<and>
   (copyFrom sock dst = (Ret e', sock', dst') \<longrightarrow>
      \<not> is_transient e' \<and> read_closed sock' \<and> write_closed dst') \<and>
   (ending (handle_request E lip sock) = Done \<longrightarrow>
      closed (client (handle_request E lip sock)) \<and>
      (\<exists>u. upstream (handle_request E lip sock) = Some u \<and> closed u))"
proof -
  have retry: "copyFrom sock dst = copyFrom (sock\<lparr>read_deadline := timeout now, inq := rest\<rparr>) dst"
    if "is_transient e \<and> inq sock = (now, [], Some e) # rest"
    using that by (simp add: copyFrom_def copy_loop_retry [of e sock now rest])
  have fatal: "\<not> is_transient e' \<and> read_closed sock' \<and> write_closed dst'"
    if a: "copyFrom sock dst = (Ret e', sock', dst')"
  proof -
    obtain r s1 d1 where c: "copy_loop (replicate bufSize 0) sock dst = (r, s1, d1)"
      by (metis surj_pair)
    from a c have r: "r = Some e'" and s: "sock' = CloseRead s1" and d: "dst' = CloseWrite d1"
      by (auto simp: copyFrom_def split: option.splits)
    from copy_loop_not_transient c r have "\<not> is_transient e'" by blast
    with s d show ?thesis by (simp add: CloseRead_def CloseWrite_def)
  qed
  have torn: "closed (client (handle_request E lip sock)) \<and>
      (\<exists>u. upstream (handle_request E lip sock) = Some u \<and> closed u)"
    if "ending (handle_request E lip sock) = Done"
    using that
    by (auto simp: handle_request_def Close_def
             split: prod.splits result.splits option.splits if_splits)
  from retry fatal torn show ?thesis by blast
qed


subsection \<open>The engine on sample sessions\<close>

lemmas session_eval = engine_eval relay_eval sample_upstream_def attempt_def

text \<open>
  A whole session: handshake, a request for 93.184.216.34:80, the success reply, one
  byte relayed upstream and two bytes relayed back, both sides closing.
\<close>

lemma full_session:
  "handle sample_env [0, 0, 0, 0]
     (fresh_conn [(0, [0x05, 0x01, 0x00], None),
                  (2, [0x05, 0x01, 0x00, 0x01, 93, 184, 216, 34, 0x00, 0x50], None),
                  (8, [0x47], None), (9, [], Some EOF)]
                 [(1, 2, None), (3, 10, None), (4, 10, None), (5, 10, None), (6, 10, None),
                  (22, 100, None)])
   = \<lparr>client = (fresh_conn [] [])
         \<lparr>wlog := [[0x05, 0x00], [0x05, 0x00, 0x00], [0x01], [0, 0, 0, 0], [0x00, 0x50],
                   [0x48, 0x49]],
          outb := [0x05, 0x00, 0x05, 0x00, 0x00, 0x01, 0, 0, 0, 0, 0x00, 0x50, 0x48, 0x49],
          read_deadline := 9 + timeoutDiff, write_deadline := 22 + timeoutDiff,
          read_closed := True, write_closed := True, closed := True\<rparr>,
      upstream = Some ((fresh_conn [] [])
         \<lparr>RemoteAddr := TCPAddr [93, 184, 216, 34] 80,
          wlog := [[0x47]], outb := [0x47],
          read_deadline := 21 + timeoutDiff, write_deadline := 15 + timeoutDiff,
          read_closed := True, write_closed := True, closed := True\<rparr>),
      dialled = [(''tcp'', TCPAddr [0, 0, 0, 0] 0, TCPAddr (IPv4 93 184 216 34) 80)],
      ending = Done\<rparr>"
  by (simp add: session_eval)

lemma request_session_done:
  "ending (handle_request sample_env [0, 0, 0, 0]
     (fresh_conn [(2, [0x05, 0x01, 0x00, 0x01, 93, 184, 216, 34, 0x00, 0x50], None),
                  (8, [0x47], None), (9, [], Some EOF)]
                 [(3, 10, None), (4, 10, None), (5, 10, None), (6, 10, None),
                  (22, 100, None)])) = Done"
  by (simp add: session_eval)

lemma idle_direction_run:
  "copyFrom (fresh_conn [(0, [], Some (NetError True False)), (10, [], Some EOF)] [])
            (fresh_conn [] [])
   = (Ret EOF,
      (fresh_conn [] [])\<lparr>read_deadline := 10 + timeoutDiff, read_closed := True\<rparr>,
      (fresh_conn [] [])\<lparr>write_closed := True\<rparr>)"
  by (simp add: relay_eval)

theorem transient_errors_are_retried_witness:
  "is_transient (NetError True False) \<and>
   copyFrom (fresh_conn [(0, [], Some (NetError True False)), (10, [], Some EOF)] [])
            (fresh_conn [] [])
     = copyFrom ((fresh_conn [(0, [], Some (NetError True False)), (10, [], Some EOF)] [])
                   \<lparr>read_deadline := timeout 0, inq := [(10, [], Some EOF)]\<rparr>)
                (fresh_conn [] []) \<and>
   \<not> is_transient EOF \<and>
   closed (client (handle_request sample_env [0, 0, 0, 0]
     (fresh_conn [(2, [0x05, 0x01, 0x00, 0x01, 93, 184, 216, 34, 0x00, 0x50], None),
                  (8, [0x47], None), (9, [], Some EOF)]
                 [(3, 10, None), (4, 10, None), (5, 10, None), (6, 10, None),
                  (22, 100, None)])))"
proof -
  have t: "is_transient (NetError True False)" by (simp add: is_transient_def)
  have i: "inq (fresh_conn [(0, [], Some (NetError True False)), (10, [], Some EOF)] [])
             = (0, [], Some (NetError True False)) # [(10, [], Some EOF)]"
    by (simp add: fresh_conn_def)
  note T1 = transient_errors_are_retried
    [where e = "NetError True False"
       and sock = "fresh_conn [(0, [], Some (NetError True False)), (10, [], Some EOF)] []"
       and now = 0 and rest = "[(10, [], Some EOF)]" and dst = "fresh_conn [] []"
       and e' = EOF
       and sock' = "(fresh_conn [] [])\<lparr>read_deadline := 10 + timeoutDiff, read_closed := True\<rparr>"
       and dst' = "(fresh_conn [] [])\<lparr>write_closed := True\<rparr>"]
  note T2 = transient_errors_are_retried
    [where E = sample_env and lip = "[0, 0, 0, 0]"
       and sock = "fresh_conn [(2, [0x05, 0x01, 0x00, 0x01, 93, 184, 216, 34, 0x00, 0x50], None),
                  (8, [0x47], None), (9, [], Some EOF)]
                 [(3, 10, None), (4, 10, None), (5, 10, None), (6, 10, None),
                  (22, 100, None)]"]
  from T1 t i idle_direction_run T2 request_session_done show ?thesis by blast
qed


theorem handshake_method_selection_witness:
  "fst (handshake (fresh_conn [(0, [0x5], None), (1, [0x2, 0x1], None),
                               (2, [0x2, 0x5, 0x1, 0x0], None)] [(3, 2, None)]))
     = Panic ErrorHandshake \<and>
   wlog (snd (handshake (fresh_conn [(0, [0x5], None), (1, [0x2, 0x1], None),
                                     (2, [0x2, 0x5, 0x1, 0x0], None)] [(3, 2, None)])))
     = [[0x5, 0xff]] \<and>
   ending (handle sample_env [0, 0, 0, 0]
            (fresh_conn [(0, [0x5], None), (1, [0x2, 0x1], None),
                         (2, [0x2, 0x5, 0x1, 0x0], None)] [(3, 2, None)]))
     = Failed ErrorHandshake \<and>
   fst (handshake (fresh_conn [(0, [0x5, 0x2, 0x2, 0x0, 0x5, 0x1], None)] [(1, 2, None)]))
     = Ret () \<and>
   wlog (snd (handshake (fresh_conn [(0, [0x5, 0x2, 0x2, 0x0, 0x5, 0x1], None)] [(1, 2, None)])))
     = [[0x5, 0x0]] \<and>
   clean_bytes (inq (snd (handshake
       (fresh_conn [(0, [0x5, 0x2, 0x2, 0x0, 0x5, 0x1], None)] [(1, 2, None)]))))
     = [0x5, 0x1]"
  using handshake_method_selection
    [where methods = "[0x1, 0x2]" and n = 2 and now = 3 and k = 2 and ws = "[]"
       and sock = "fresh_conn [(0, [0x5], None), (1, [0x2, 0x1], None),
                               (2, [0x2, 0x5, 0x1, 0x0], None)] [(3, 2, None)]"
       and E = sample_env and lip = "[0, 0, 0, 0]"]
        handshake_method_selection
    [where methods = "[0x2, 0x0]" and n = 2 and now = 1 and k = 2 and ws = "[]"
       and sock = "fresh_conn [(0, [0x5, 0x2, 0x2, 0x0, 0x5, 0x1], None)] [(1, 2, None)]"
       and E = sample_env and lip = "[0, 0, 0, 0]"]
  by (simp add: fresh_conn_def)

lemma denied_ipv6_request:
  "connect sample_env [0, 0, 0, 0]
     (fresh_conn [(0, [0x05, 0x01, 0x00, 0x04,
                       0, 0, 0, 0, 0, 0, 0, 0, 0, 0, 0, 0, 0, 0, 0, 1, 0x00, 0x50], None)]
                 [(1, 10, None)])
   = ((Panic ErrorNotAllowed,
       (fresh_conn [] [])
         \<lparr>wlog := [[0x05, 0x02, 0x00, 0x01, 0, 0, 0, 0, 0, 0]],
          outb := [0x05, 0x02, 0x00, 0x01, 0, 0, 0, 0, 0, 0],
          read_deadline := 0 + timeoutDiff, write_deadline := 1 + timeoutDiff\<rparr>),
      [])"
  by (simp add: engine_eval)

theorem failure_reply_fixed_form_witness:
  "wlog ((fresh_conn [] [])
         \<lparr>wlog := [[0x05, 0x02, 0x00, 0x01, 0, 0, 0, 0, 0, 0]],
          outb := [0x05, 0x02, 0x00, 0x01, 0, 0, 0, 0, 0, 0],
          read_deadline := 0 + timeoutDiff, write_deadline := 1 + timeoutDiff\<rparr>)
     = [[0x05, 0x02, 0x00, 0x01, 0, 0, 0, 0, 0, 0]] \<and>
   (\<exists>rsp. rsp \<in> {0x1, 0x2, 0x7, 0x8 :: byte} \<and>
      fst (fst (connect sample_env [0, 0, 0, 0]
        (fresh_conn [(0, [0x05, 0x01, 0x00, 0x04,
                       0, 0, 0, 0, 0, 0, 0, 0, 0, 0, 0, 0, 0, 0, 0, 1, 0x00, 0x50], None)]
                    [(1, 10, None)]))) = Panic ErrorNotAllowed \<and>
      wlog (snd (fst (connect sample_env [0, 0, 0, 0]
        (fresh_conn [(0, [0x05, 0x01, 0x00, 0x04,
                       0, 0, 0, 0, 0, 0, 0, 0, 0, 0, 0, 0, 0, 0, 0, 1, 0x00, 0x50], None)]
                    [(1, 10, None)]))))
        = [[0x05, rsp, 0x00, 0x01, 0, 0, 0, 0, 0, 0]])"
  using failure_reply_fixed_form [OF denied_ipv6_request] denied_ipv6_request
  by (auto simp: fresh_conn_def)


end
